theory Spec2Isabelle
  imports Complex_Main "HOL-Library.AList"
begin

section \<open>Data model\<close>

text \<open>
  The module \<^verbatim>\<open>components/graphs.py\<close> builds plot descriptions from pandas
  data frames. A frame is modelled row by row. Every row carries its index label (a
  year, in the program a 64-bit integer of numpy), the cell of the \<^verbatim>\<open>Year\<close>
  column, the cell of the boolean \<^verbatim>\<open>Forecast\<close> column and the cells of the value
  columns, where \<open>None\<close>
  is a missing value (NaN). Which of the columns the frame really has is recorded by the
  list of column labels, as \<^verbatim>\<open>df.columns\<close> does.
\<close>

datatype error = AssertionError | KeyError | TypeError | ValueError

datatype cell = NumCell real | BoolCell bool | IntCell int

record row =
  label :: int
  Year :: int
  Forecast :: bool
  vals :: "string \<Rightarrow> real option"

record dataframe =
  columns :: "string list"
  rows :: "row list"

text \<open>The cell of a row in the column named \<open>c\<close>; \<open>None\<close> is NaN.\<close>

definition cell_of :: "row \<Rightarrow> string \<Rightarrow> cell option" where
  "cell_of r c =
     (if c = ''Forecast'' then Some (BoolCell (Forecast r))
      else if c = ''Year'' then Some (IntCell (Year r))
      else map_option NumCell (vals r c))"

text \<open>\<^verbatim>\<open>df.set_index(name)\<close> for the integer column \<^verbatim>\<open>Year\<close>: the column
  becomes the index and leaves the columns.\<close>

definition set_index_Year :: "dataframe \<Rightarrow> dataframe" where
  "set_index_Year df =
     \<lparr>columns = filter (\<lambda>c. c \<noteq> ''Year'') (columns df),
      rows = map (\<lambda>r. r\<lparr>label := Year r\<rparr>) (rows df)\<rparr>"

text \<open>\<^verbatim>\<open>df.index\<close>, and pandas' \<^verbatim>\<open>min()\<close> and \<^verbatim>\<open>max()\<close> of an index, which
  are NaN on an empty index.\<close>

datatype stat = NaN | Val int

definition index :: "dataframe \<Rightarrow> int list" where
  "index df = map label (rows df)"

fun index_min :: "int list \<Rightarrow> stat" where
  "index_min [] = NaN"
| "index_min (x # xs) = Val (fold min xs x)"

fun index_max :: "int list \<Rightarrow> stat" where
  "index_max [] = NaN"
| "index_max (x # xs) = Val (fold max xs x)"

text \<open>Comparisons with NaN are false, whatever the operator.\<close>

fun stat_less :: "stat \<Rightarrow> stat \<Rightarrow> bool" where
  "stat_less (Val a) (Val b) = (a < b)"
| "stat_less _ _ = False"

fun label_ge :: "int \<Rightarrow> stat \<Rightarrow> bool" where
  "label_ge y (Val s) = (s \<le> y)"
| "label_ge y NaN = False"

fun label_eq :: "int \<Rightarrow> stat \<Rightarrow> bool" where
  "label_eq y (Val s) = (y = s)"
| "label_eq y NaN = False"

section \<open>PredictionGraphSeries\<close>

text \<open>The argument \<^verbatim>\<open>column_name\<close> of the constructor: \<^verbatim>\<open>None\<close>, a string,
  or a value that is not a string (an integer column label).\<close>

datatype name_arg = NoName | StrName string | IntName int

fun truthy_name :: "name_arg \<Rightarrow> bool" where
  "truthy_name NoName = False"
| "truthy_name (StrName s) = (s \<noteq> [])"
| "truthy_name (IntName i) = (i \<noteq> 0)"

text \<open>Truth value of an optional string: \<^verbatim>\<open>None\<close> and \<^verbatim>\<open>''\<close> are false.\<close>

fun truthy_str :: "string option \<Rightarrow> bool" where
  "truthy_str None = False"
| "truthy_str (Some s) = (s \<noteq> [])"

text \<open>The series after \<^verbatim>\<open>__post_init__\<close>. The back reference to the graph is
  not stored: the functions that read it take the graph as an argument.\<close>

record PredictionGraphSeries =
  df :: dataframe
  trace_name :: "string option"
  column_name :: string
  historical_color :: "string option"
  forecast_color :: "string option"
  luminance_change :: "real option"

text \<open>The first half of \<^verbatim>\<open>__post_init__\<close>: the frame and the candidate value
  columns after the \<^verbatim>\<open>Forecast\<close> and \<^verbatim>\<open>Year\<close> columns are taken out.\<close>

definition post_init_frame :: "dataframe \<Rightarrow> error + (dataframe \<times> string list)" where
  "post_init_frame d =
     (let col_names = columns d in
      if ''Forecast'' \<notin> set (columns d) then Inl AssertionError
      else
        let col_names = remove1 ''Forecast'' col_names in
        if ''Year'' \<in> set col_names
        then Inr (set_index_Year d, remove1 ''Year'' col_names)
        else Inr (d, col_names))"

definition post_init ::
  "dataframe \<Rightarrow> string option \<Rightarrow> name_arg \<Rightarrow> string option \<Rightarrow> string option \<Rightarrow> real option
     \<Rightarrow> error + PredictionGraphSeries" where
  "post_init d tn cn hc fc lc =
     (case post_init_frame d of
        Inl e \<Rightarrow> Inl e
      | Inr (d', col_names) \<Rightarrow>
          if \<not> truthy_name cn then
            (if length col_names \<noteq> 1 then Inl AssertionError
             else Inr \<lparr>df = d', trace_name = tn, column_name = hd col_names,
                       historical_color = hc, forecast_color = fc, luminance_change = lc\<rparr>)
          else
            (case cn of
               StrName s \<Rightarrow>
                 Inr \<lparr>df = d', trace_name = tn, column_name = s,
                      historical_color = hc, forecast_color = fc, luminance_change = lc\<rparr>
             | _ \<Rightarrow> Inl AssertionError))"

section \<open>What the module imports\<close>

text \<open>
  Three things the module uses are defined outside it: the helper
  \<^verbatim>\<open>find_consecutive_start\<close> of \<^verbatim>\<open>utils.data\<close>, the table
  \<^verbatim>\<open>GHG_MAIN_SECTOR_COLORS\<close> of \<^verbatim>\<open>utils.colors\<close>, and the class
  \<^verbatim>\<open>Color\<close> of the library \<^verbatim>\<open>colour\<close>. They are parameters of the model.
  A colour object holds hue, saturation and luminance; its constructor parses a colour
  string and its property \<^verbatim>\<open>hex\<close> prints it, and both may raise. Luminance is a
  real number here, where the program computes with floating point numbers.
\<close>

record hsl =
  hue :: real
  saturation :: real
  luminance :: real

record externals =
  find_consecutive_start :: "int list \<Rightarrow> error + int"
  GHG_MAIN_SECTOR_COLORS :: "string option \<Rightarrow> string option"
  Color :: "string \<Rightarrow> error + hsl"
  hex :: "hsl \<Rightarrow> error + string"

section \<open>PredictionGraph\<close>

record PredictionGraph =
  sector_name :: "string option"
  title :: "string option"
  unit_name :: "string option"
  y_max :: "real option"
  smoothing :: bool
  fill :: bool
  stacked :: bool
  allow_nonconsecutive_years :: bool
  series_list :: "PredictionGraphSeries list"
  min_year :: "stat option"
  max_year :: "stat option"
  forecast_start_year :: "stat option"

subsection \<open>get_color\<close>

text \<open>Lines 104 to 110: the luminance change of the series, when it is set and not zero.\<close>

definition change_luminance :: "real option \<Rightarrow> hsl \<Rightarrow> hsl" where
  "change_luminance lc color =
     (case lc of
        None \<Rightarrow> color
      | Some c \<Rightarrow>
          if c = 0 then color
          else if c < 0 then color\<lparr>luminance := luminance color * (1 + c)\<rparr>
          else color\<lparr>luminance := luminance color + (1 - luminance color) * c\<rparr>)"

text \<open>Lines 112 to 116: a forecast colour is lightened.\<close>

definition lighten_forecast :: "bool \<Rightarrow> hsl \<Rightarrow> hsl" where
  "lighten_forecast forecast color =
     (if forecast
      then color\<lparr>luminance := luminance color + (1 - luminance color) * 0.3\<rparr>
      else color)"

text \<open>Lines 99 to 117: the colour derived from the historical colour or from the sector.\<close>

definition derived_color ::
  "externals \<Rightarrow> PredictionGraph \<Rightarrow> PredictionGraphSeries \<Rightarrow> bool \<Rightarrow> error + string" where
  "derived_color env g s forecast =
     (case (if forecast \<and> truthy_str (historical_color s)
            then (case historical_color s of Some h \<Rightarrow> Color env h | None \<Rightarrow> Inl TypeError)
            else (case GHG_MAIN_SECTOR_COLORS env (sector_name g) of
                    None \<Rightarrow> Inl KeyError
                  | Some c \<Rightarrow> Color env c)) of
        Inl e \<Rightarrow> Inl e
      | Inr color \<Rightarrow>
          hex env (lighten_forecast forecast (change_luminance (luminance_change s) color)))"

definition get_color ::
  "externals \<Rightarrow> PredictionGraph \<Rightarrow> PredictionGraphSeries \<Rightarrow> bool \<Rightarrow> error + string" where
  "get_color env g s forecast =
     (let color = (if forecast then forecast_color s else historical_color s) in
      case color of
        Some c \<Rightarrow> if c \<noteq> [] then Inr c else derived_color env g s forecast
      | None \<Rightarrow> derived_color env g s forecast)"

subsection \<open>Strings\<close>

text \<open>Python's \<^verbatim>\<open>str\<close> of an integer, and \<^verbatim>\<open>'%s' % v\<close> for an optional string.\<close>

function str_nat :: "nat \<Rightarrow> string" where
  "str_nat n =
     (if n < 10 then [''0123456789'' ! n]
      else str_nat (n div 10) @ [''0123456789'' ! (n mod 10)])"
  by pat_completeness auto
termination
  by (relation "measure (\<lambda>n. n)") auto

declare str_nat.simps [simp del]

definition str_int :: "int \<Rightarrow> string" where
  "str_int i = (if i < 0 then CHR ''-'' # str_nat (nat (- i)) else str_nat (nat i))"

fun fmt_s :: "string option \<Rightarrow> string" where
  "fmt_s None = ''None''"
| "fmt_s (Some s) = s"

subsection \<open>get_traces_for_series\<close>

record trace_attrs =
  ta_fill :: "string option"
  ta_mode :: string
  ta_stackgroup :: "string option"
  ta_fillcolor :: "string option"

record line_attrs =
  ln_width :: int
  ln_smoothing :: "int option"
  ln_shape :: "string option"
  ln_dash :: "string option"

record trace =
  tr_type :: string
  tr_x :: "string list"
  tr_y :: "(int \<times> cell) list"
  tr_name :: "string option"
  tr_hovertemplate :: string
  tr_line_color :: string
  tr_line :: line_attrs
  tr_attrs :: trace_attrs

text \<open>\<^verbatim>\<open>df.loc[mask, y_column]\<close> is a series, the selected rows' labels with their
  cells in the column; a column the frame does not have is a \<^verbatim>\<open>KeyError\<close>.
  \<^verbatim>\<open>dropna\<close> removes the entries whose cell is NaN.\<close>

definition loc :: "dataframe \<Rightarrow> (row \<Rightarrow> bool) \<Rightarrow> string \<Rightarrow> error + (int \<times> cell option) list" where
  "loc d sel c =
     (if c \<in> set (columns d)
      then Inr (map (\<lambda>r. (label r, cell_of r c)) (filter sel (rows d)))
      else Inl KeyError)"

definition dropna :: "(int \<times> cell option) list \<Rightarrow> (int \<times> cell) list" where
  "dropna xs = List.map_filter (\<lambda>(i, c). map_option (Pair i) c) xs"

text \<open>Lines 140 to 150.\<close>

definition initial_trace_attrs :: "PredictionGraph \<Rightarrow> int \<Rightarrow> trace_attrs" where
  "initial_trace_attrs g idx =
     \<lparr>ta_fill =
        (if stacked g \<or> fill g
         then (if stacked g \<and> idx > 0 then Some ''tonexty'' else Some ''tozeroy'')
         else None),
      ta_mode = (if fill g then ''none'' else ''lines''),
      ta_stackgroup = None,
      ta_fillcolor = None\<rparr>"

text \<open>Lines 152 to 155.\<close>

definition start_year_of :: "externals \<Rightarrow> PredictionGraph \<Rightarrow> dataframe \<Rightarrow> error + stat" where
  "start_year_of env g d =
     (if allow_nonconsecutive_years g then Inr (index_min (index d))
      else (case find_consecutive_start env (index d) of
              Inl e \<Rightarrow> Inl e
            | Inr y \<Rightarrow> Inr (Val y)))"

text \<open>Line 158.\<close>

definition hist_series_of ::
  "dataframe \<Rightarrow> stat \<Rightarrow> string \<Rightarrow> error + (int \<times> cell) list" where
  "hist_series_of d start_year y_column =
     (case loc d (\<lambda>r. \<not> Forecast r \<and> label_ge (label r) start_year) y_column of
        Inl e \<Rightarrow> Inl e
      | Inr s \<Rightarrow> Inr (dropna s))"

text \<open>Lines 191 to 196: with a historical series the forecast series also takes the rows
  of the last historical year.\<close>

definition forecast_series_of ::
  "dataframe \<Rightarrow> (int \<times> cell) list \<Rightarrow> string \<Rightarrow> error + (int \<times> cell) list" where
  "forecast_series_of d hist_series y_column =
     (case (if hist_series \<noteq> []
            then (let last_hist_year = index_max (map fst hist_series) in
                  loc d (\<lambda>r. Forecast r \<or> label_eq (label r) last_hist_year) y_column)
            else loc d (\<lambda>r. Forecast r) y_column) of
        Inl e \<Rightarrow> Inl e
      | Inr s \<Rightarrow> Inr (dropna s))"

definition hovertemplate_of :: "PredictionGraph \<Rightarrow> string" where
  "hovertemplate_of g =
     ''%{x}: %{y}'' @
       (case unit_name g of
          Some u \<Rightarrow> if u \<noteq> [] then '' '' @ u else []
        | None \<Rightarrow> [])"

definition initial_line_attrs :: "PredictionGraph \<Rightarrow> line_attrs" where
  "initial_line_attrs g =
     (if smoothing g
      then \<lparr>ln_width = 4, ln_smoothing = Some 1, ln_shape = Some ''spline'', ln_dash = None\<rparr>
      else \<lparr>ln_width = 4, ln_smoothing = None, ln_shape = None, ln_dash = None\<rparr>)"

text \<open>Lines 169 to 190: the historical trace, and the trace attributes as the branch
  leaves them for the forecast branch.\<close>

definition hist_trace_of ::
  "PredictionGraph \<Rightarrow> PredictionGraphSeries \<Rightarrow> trace_attrs \<Rightarrow> line_attrs \<Rightarrow> (int \<times> cell) list
     \<Rightarrow> string \<Rightarrow> trace \<times> trace_attrs" where
  "hist_trace_of g series ta la hist_series color =
     (let ta = (if stacked g then ta\<lparr>ta_stackgroup := Some ''history''\<rparr> else ta);
          ta = (if fill g then ta\<lparr>ta_fillcolor := Some color\<rparr> else ta)
      in (\<lparr>tr_type = ''scatter'',
           tr_x = map (\<lambda>(i, v). str_int i) hist_series,
           tr_y = hist_series,
           tr_name = trace_name series,
           tr_hovertemplate = hovertemplate_of g,
           tr_line_color = color,
           tr_line = la,
           tr_attrs = ta\<rparr>, ta))"

text \<open>Lines 197 to 219.\<close>

definition forecast_trace_of ::
  "PredictionGraph \<Rightarrow> PredictionGraphSeries \<Rightarrow> trace_attrs \<Rightarrow> line_attrs \<Rightarrow> (int \<times> cell) list
     \<Rightarrow> string \<Rightarrow> trace" where
  "forecast_trace_of g series ta la forecast_series color =
     (let ta = (if stacked g then ta\<lparr>ta_stackgroup := Some ''forecast''\<rparr> else ta);
          ta = (if fill g then ta\<lparr>ta_fillcolor := Some color\<rparr> else ta);
          la = (if fill g then la else la\<lparr>ln_dash := Some ''dash''\<rparr>)
      in \<lparr>tr_type = ''scatter'',
          tr_x = map (\<lambda>(i, v). str_int i) forecast_series,
          tr_y = forecast_series,
          tr_name = Some (fmt_s (trace_name series) @ '' (enn.)''),
          tr_hovertemplate = hovertemplate_of g,
          tr_line_color = color,
          tr_line = la,
          tr_attrs = ta\<rparr>)"

text \<open>The result of the two branches: the historical part, then the forecast part, which
  puts its trace in front.\<close>

definition hist_part ::
  "externals \<Rightarrow> PredictionGraph \<Rightarrow> PredictionGraphSeries \<Rightarrow> trace_attrs \<Rightarrow> line_attrs
     \<Rightarrow> (int \<times> cell) list \<Rightarrow> error + (trace list \<times> trace_attrs)" where
  "hist_part env g series ta la hist_series =
     (if hist_series \<noteq> [] then
        (case get_color env g series False of
           Inl e \<Rightarrow> Inl e
         | Inr color \<Rightarrow>
             (case hist_trace_of g series ta la hist_series color of
                (hist_trace, ta') \<Rightarrow> Inr ([hist_trace], ta')))
      else Inr ([], ta))"

definition forecast_part ::
  "externals \<Rightarrow> PredictionGraph \<Rightarrow> PredictionGraphSeries \<Rightarrow> trace_attrs \<Rightarrow> line_attrs
     \<Rightarrow> (int \<times> cell) list \<Rightarrow> trace list \<Rightarrow> error + trace list" where
  "forecast_part env g series ta la forecast_series traces =
     (if forecast_series \<noteq> [] then
        (case get_color env g series True of
           Inl e \<Rightarrow> Inl e
         | Inr color \<Rightarrow> Inr (forecast_trace_of g series ta la forecast_series color # traces))
      else Inr traces)"

definition get_traces_for_series ::
  "externals \<Rightarrow> PredictionGraph \<Rightarrow> PredictionGraphSeries \<Rightarrow> int \<Rightarrow> bool \<Rightarrow> error + trace list" where
  "get_traces_for_series env g series idx has_multiple_series =
     (let d = df series;
          ta = initial_trace_attrs g idx;
          y_column = column_name series;
          la = initial_line_attrs g
      in case start_year_of env g d of
           Inl e \<Rightarrow> Inl e
         | Inr start_year \<Rightarrow>
        (case hist_series_of d start_year y_column of
           Inl e \<Rightarrow> Inl e
         | Inr hist_series \<Rightarrow>
        (case hist_part env g series ta la hist_series of
           Inl e \<Rightarrow> Inl e
         | Inr (traces, ta') \<Rightarrow>
        (case forecast_series_of d hist_series y_column of
           Inl e \<Rightarrow> Inl e
         | Inr forecast_series \<Rightarrow>
             forecast_part env g series ta' la forecast_series traces))))"

subsection \<open>add_series\<close>

text \<open>\<^verbatim>\<open>PredictionGraph.__post_init__\<close>: a new graph has no series and no years.\<close>

definition graph_post_init :: "PredictionGraph \<Rightarrow> PredictionGraph" where
  "graph_post_init g =
     g\<lparr>series_list := [], min_year := None, max_year := None, forecast_start_year := None\<rparr>"

text \<open>The arguments of one call of \<^verbatim>\<open>add_series\<close>, which are those of the
  constructor of the series: the frame, the trace name, the column name, the two colours
  and the luminance change.\<close>

type_synonym series_args =
  "dataframe \<times> string option \<times> name_arg \<times> string option \<times> string option \<times> real option"

fun make_series :: "series_args \<Rightarrow> error + PredictionGraphSeries" where
  "make_series (d, tn, cn, hc, fc, lc) = post_init d tn cn hc fc lc"

definition fstart_of :: "dataframe \<Rightarrow> stat" where
  "fstart_of d = index_max (map label (filter (\<lambda>r. \<not> Forecast r) (rows d)))"

definition add_series :: "PredictionGraph \<Rightarrow> series_args \<Rightarrow> error + PredictionGraph" where
  "add_series g args =
     (case make_series args of
        Inl e \<Rightarrow> Inl e
      | Inr series \<Rightarrow>
          let g = g\<lparr>series_list := series_list g @ [series]\<rparr>;
              d = df series;
              g = (case min_year g of
                     None \<Rightarrow> g\<lparr>min_year := Some (index_min (index d))\<rparr>
                   | Some m \<Rightarrow>
                       if stat_less (index_min (index d)) m
                       then g\<lparr>min_year := Some (index_min (index d))\<rparr> else g);
              g = (case max_year g of
                     None \<Rightarrow> g\<lparr>max_year := Some (index_max (index d))\<rparr>
                   | Some m \<Rightarrow>
                       if stat_less m (index_max (index d))
                       then g\<lparr>max_year := Some (index_max (index d))\<rparr> else g);
              fstart = fstart_of d;
              g = (case forecast_start_year g of
                     None \<Rightarrow> g\<lparr>forecast_start_year := Some fstart\<rparr>
                   | Some f \<Rightarrow>
                       if stat_less fstart f
                       then g\<lparr>forecast_start_year := Some fstart\<rparr> else g)
          in Inr g)"

text \<open>A sequence of calls; a call that raises ends it.\<close>

fun add_all :: "PredictionGraph \<Rightarrow> series_args list \<Rightarrow> error + PredictionGraph" where
  "add_all g [] = Inr g"
| "add_all g (a # as) =
     (case add_series g a of Inl e \<Rightarrow> Inl e | Inr g' \<Rightarrow> add_all g' as)"

subsection \<open>get_figure\<close>

text \<open>\<^verbatim>\<open>year != self.forecast_start_year\<close>: an integer differs from \<^verbatim>\<open>None\<close>
  and from NaN.\<close>

fun year_differs :: "int \<Rightarrow> stat option \<Rightarrow> bool" where
  "year_differs y (Some (Val f)) = (y \<noteq> f)"
| "year_differs y _ = True"

text \<open>Lines 246 to 253, the loop over the years with the two lists it appends to.\<close>

fun tick_loop ::
  "stat option \<Rightarrow> int \<Rightarrow> int list \<Rightarrow> int list \<times> string list \<Rightarrow> int list \<times> string list" where
  "tick_loop fsy maxy [] (tick_vals, tick_labels) = (tick_vals, tick_labels)"
| "tick_loop fsy maxy (year # years) (tick_vals, tick_labels) =
     (if year_differs year fsy \<and> tick_vals \<noteq> [] \<and> year \<noteq> maxy then
        (if year - last tick_vals < 3 then tick_loop fsy maxy years (tick_vals, tick_labels)
         else if year mod 5 \<noteq> 0 then tick_loop fsy maxy years (tick_vals, tick_labels)
         else tick_loop fsy maxy years (tick_vals @ [year], tick_labels @ [str_int year]))
      else tick_loop fsy maxy years (tick_vals @ [year], tick_labels @ [str_int year]))"

text \<open>The index years of a frame are 64-bit integers of numpy, and so are
  \<^verbatim>\<open>min_year\<close> and \<^verbatim>\<open>max_year\<close>: the sum \<^verbatim>\<open>self.max_year + 1\<close> wraps
  around at the largest of them.\<close>

definition wrap_int64 :: "int \<Rightarrow> int" where
  "wrap_int64 x = (x + 2 ^ 63) mod 2 ^ 64 - 2 ^ 63"

text \<open>\<^verbatim>\<open>range(start, stop)\<close> on Python's integers.\<close>

definition py_range :: "int \<Rightarrow> int \<Rightarrow> int list" where
  "py_range start stop = [start..stop - 1]"

text \<open>\<^verbatim>\<open>range(self.min_year, self.max_year + 1)\<close> needs two integers.\<close>

definition get_ticks :: "PredictionGraph \<Rightarrow> error + (int list \<times> string list)" where
  "get_ticks g =
     (case (min_year g, max_year g) of
        (Some (Val a), Some (Val b)) \<Rightarrow>
          Inr (tick_loop (forecast_start_year g) b (py_range a (wrap_int64 (b + 1))) ([], []))
      | _ \<Rightarrow> Inl TypeError)"

section \<open>make_layout\<close>

text \<open>The values of a parameter dictionary. A dictionary is an association list, in
  insertion order; assigning to a key it has keeps the key's place.\<close>

datatype pyval =
    PyNone
  | PyBool bool
  | PyInt int
  | PyFloat real
  | PyStr string
  | PyList "pyval list"
  | PyDict "(string \<times> pyval) list"

type_synonym pydict = "(string \<times> pyval) list"

definition has_key :: "pydict \<Rightarrow> string \<Rightarrow> bool" where
  "has_key d k = (map_of d k \<noteq> None)"

text \<open>
  Modelled from the spec: \<^verbatim>\<open>deepupdate\<close> of the package \<^verbatim>\<open>utils\<close> is not among the
  sources. It is the deep merge of the given arguments into the target, in which the given
  arguments win: a dictionary given for a key that holds a dictionary is merged into that
  one key by key, and any other given value replaces what the key held.
\<close>

fun deepupdate :: "pydict \<Rightarrow> pydict \<Rightarrow> pydict" where
  "deepupdate target [] = target"
| "deepupdate target ((k, v) # src) =
     deepupdate
       (case v of
          PyDict s \<Rightarrow>
            (case map_of target k of
               Some (PyDict t) \<Rightarrow> AList.update k (PyDict (deepupdate t s)) target
             | _ \<Rightarrow> AList.update k v target)
        | _ \<Rightarrow> AList.update k v target)
       src"

text \<open>\<^verbatim>\<open>'%s' % v\<close>. The printing of floats, lists and dictionaries is the parameter
  \<open>repr\<close>.\<close>

definition format_s :: "(pyval \<Rightarrow> string) \<Rightarrow> pyval \<Rightarrow> string" where
  "format_s repr v =
     (case v of
        PyStr s \<Rightarrow> s
      | PyNone \<Rightarrow> ''None''
      | PyBool b \<Rightarrow> (if b then ''True'' else ''False'')
      | PyInt i \<Rightarrow> str_int i
      | _ \<Rightarrow> repr v)"

definition font_params :: pydict where
  "font_params = [(''family'', PyStr ''HelsinkiGrotesk, Arial''), (''size'', PyInt 14)]"

definition default_params :: pydict where
  "default_params =
     [(''margin'', PyDict [(''t'', PyInt 30), (''r'', PyInt 15), (''l'', PyInt 60)]),
      (''yaxis'', PyDict
         [(''rangemode'', PyStr ''tozero''),
          (''hoverformat'', PyStr ''.3r''),
          (''separatethousands'', PyBool True),
          (''anchor'', PyStr ''free''),
          (''domain'', PyList [PyFloat 0.02, PyInt 1]),
          (''tickfont'', PyDict font_params),
          (''gridwidth'', PyInt 1),
          (''gridcolor'', PyStr ''#ccc''),
          (''fixedrange'', PyBool True)]),
      (''xaxis'', PyDict
         [(''showgrid'', PyBool False),
          (''showline'', PyBool False),
          (''anchor'', PyStr ''free''),
          (''domain'', PyList [PyFloat 0.01, PyInt 1]),
          (''tickfont'', PyDict font_params),
          (''gridwidth'', PyInt 1),
          (''gridcolor'', PyStr ''#ccc''),
          (''fixedrange'', PyBool True)]),
      (''font'', PyDict [(''family'', PyStr ''HelsinkiGrotesk, Open Sans, Arial'')]),
      (''separators'', PyStr '', ''),
      (''plot_bgcolor'', PyStr ''#fff'')]"

text \<open>Lines 53 and 54.\<close>

definition initial_params :: "pydict \<Rightarrow> pydict" where
  "initial_params kwargs =
     (if \<not> has_key kwargs ''legend''
      then AList.update ''showlegend'' (PyBool False) default_params
      else default_params)"

text \<open>Lines 57 and 58.\<close>

definition wrap_title :: "(pyval \<Rightarrow> string) \<Rightarrow> pydict \<Rightarrow> pydict" where
  "wrap_title repr params =
     (case map_of params ''title'' of
        Some t \<Rightarrow> AList.update ''title'' (PyStr (''<b>'' @ format_s repr t @ ''</b>'')) params
      | None \<Rightarrow> params)"

definition make_layout :: "(pyval \<Rightarrow> string) \<Rightarrow> pydict \<Rightarrow> pydict" where
  "make_layout repr kwargs = wrap_title repr (deepupdate (initial_params kwargs) kwargs)"

subsection \<open>The figure\<close>

fun opt_str :: "string option \<Rightarrow> pyval" where
  "opt_str None = PyNone"
| "opt_str (Some s) = PyStr s"

definition yattrs_of :: "PredictionGraph \<Rightarrow> pydict" where
  "yattrs_of g =
     (case y_max g of
        None \<Rightarrow> []
      | Some m \<Rightarrow>
          if m = 0 then []
          else [(''fixedrange'', PyBool True), (''range'', PyList [PyInt 0, PyFloat m])])"

definition layout_of :: "(pyval \<Rightarrow> string) \<Rightarrow> PredictionGraph \<Rightarrow> int list \<Rightarrow> string list \<Rightarrow> pydict" where
  "layout_of repr g tick_vals tick_labels =
     make_layout repr
       [(''title'', opt_str (title g)),
        (''yaxis'', PyDict ((''title'', opt_str (unit_name g)) # yattrs_of g)),
        (''xaxis'', PyDict
           [(''fixedrange'', PyBool True),
            (''tickvals'', PyList (map PyInt tick_vals)),
            (''ticklabels'', PyList (map PyStr tick_labels))]),
        (''hovermode'', PyStr ''closest''),
        (''height'', PyInt 450)]"

fun collect_traces ::
  "externals \<Rightarrow> PredictionGraph \<Rightarrow> PredictionGraphSeries list \<Rightarrow> int \<Rightarrow> bool \<Rightarrow> error + trace list" where
  "collect_traces env g [] idx has_multiple = Inr []"
| "collect_traces env g (series # rest) idx has_multiple =
     (case get_traces_for_series env g series idx has_multiple of
        Inl e \<Rightarrow> Inl e
      | Inr ts \<Rightarrow>
          (case collect_traces env g rest (idx + 1) has_multiple of
             Inl e \<Rightarrow> Inl e
           | Inr others \<Rightarrow> Inr (ts @ others)))"

record figure =
  fig_data :: "trace list"
  fig_layout :: pydict

definition get_figure :: "externals \<Rightarrow> (pyval \<Rightarrow> string) \<Rightarrow> PredictionGraph \<Rightarrow> error + figure" where
  "get_figure env repr g =
     (case get_ticks g of
        Inl e \<Rightarrow> Inl e
      | Inr (tick_vals, tick_labels) \<Rightarrow>
          (let layout = layout_of repr g tick_vals tick_labels;
               has_multiple = (length (series_list g) > 1)
           in case collect_traces env g (series_list g) 0 has_multiple of
                Inl e \<Rightarrow> Inl e
              | Inr traces \<Rightarrow> Inr \<lparr>fig_data = traces, fig_layout = layout\<rparr>))"

section \<open>Reading a result\<close>

text \<open>The historical trace of a series carries the series' trace name, the forecast trace
  that name with the suffix \<^verbatim>\<open> (enn.)\<close>. The points of a trace are the entries of
  its \<^verbatim>\<open>y\<close> series, index label and value.\<close>

definition forecast_name :: "PredictionGraphSeries \<Rightarrow> string option" where
  "forecast_name s = Some (fmt_s (trace_name s) @ '' (enn.)'')"

definition historical_traces :: "PredictionGraphSeries \<Rightarrow> trace list \<Rightarrow> trace list" where
  "historical_traces s ts = filter (\<lambda>t. tr_name t = trace_name s) ts"

definition forecast_traces :: "PredictionGraphSeries \<Rightarrow> trace list \<Rightarrow> trace list" where
  "forecast_traces s ts = filter (\<lambda>t. tr_name t = forecast_name s) ts"

definition historical_points :: "PredictionGraphSeries \<Rightarrow> trace list \<Rightarrow> (int \<times> cell) list" where
  "historical_points s ts = concat (map tr_y (historical_traces s ts))"

definition forecast_points :: "PredictionGraphSeries \<Rightarrow> trace list \<Rightarrow> (int \<times> cell) list" where
  "forecast_points s ts = concat (map tr_y (forecast_traces s ts))"

text \<open>
  The years of a graph fit together: a new graph has none; afterwards the smallest and the
  largest year are both NaN (the first frame was empty) or both years, and then the forecast
  start year is NaN or lies between them.
\<close>

fun years_consistent :: "stat option \<Rightarrow> stat option \<Rightarrow> stat option \<Rightarrow> bool" where
  "years_consistent None None None = True"
| "years_consistent (Some NaN) (Some NaN) (Some NaN) = True"
| "years_consistent (Some (Val a)) (Some (Val b)) (Some NaN) = (a \<le> b)"
| "years_consistent (Some (Val a)) (Some (Val b)) (Some (Val f)) = (a \<le> f \<and> f \<le> b)"
| "years_consistent _ _ _ = False"

definition years_inv :: "PredictionGraph \<Rightarrow> bool" where
  "years_inv g = years_consistent (min_year g) (max_year g) (forecast_start_year g)"

section \<open>Example data\<close>

text \<open>
  Modelled from the spec: \<^verbatim>\<open>find_consecutive_start\<close> of \<^verbatim>\<open>utils.data\<close> is not
  among the sources. It gives the first year of the final run of consecutive years of an
  index. The examples use it; the properties of \<open>get_traces_for_series\<close> are proved for
  every such helper.
\<close>

fun run_start :: "int \<Rightarrow> int \<Rightarrow> int list \<Rightarrow> int" where
  "run_start start last_val [] = start"
| "run_start start last_val (v # vs) =
     run_start (if v - last_val \<noteq> 1 then v else start) v vs"

definition consecutive_start :: "int list \<Rightarrow> error + int" where
  "consecutive_start xs =
     (case xs of [] \<Rightarrow> Inl ValueError | x # xs' \<Rightarrow> Inr (run_start x x xs'))"

definition example_externals :: externals where
  "example_externals =
     \<lparr>find_consecutive_start = consecutive_start,
      GHG_MAIN_SECTOR_COLORS =
        (\<lambda>k. if k = Some ''Transportation'' then Some ''#ff0000'' else None),
      Color =
        (\<lambda>s. if s = ''#ff0000'' then Inr \<lparr>hue = 0, saturation = 1, luminance = 1 / 2\<rparr>
             else if s = ''#000080'' then Inr \<lparr>hue = 2 / 3, saturation = 1, luminance = 1 / 4\<rparr>
             else Inl ValueError),
      hex =
        (\<lambda>c. if 0 \<le> luminance c \<and> luminance c \<le> 1
             then Inr (if luminance c < 1 / 2 then ''#dark'' else ''#light'')
             else Inl ValueError)\<rparr>"

definition example_row :: "int \<Rightarrow> bool \<Rightarrow> real option \<Rightarrow> row" where
  "example_row y f v =
     \<lparr>label = y, Year = y, Forecast = f,
      vals = (\<lambda>c. if c = ''Emissions'' then v else None)\<rparr>"

definition example_df :: dataframe where
  "example_df =
     \<lparr>columns = [''Forecast'', ''Emissions''],
      rows = [example_row 2018 False (Some 5), example_row 2019 False (Some 4),
              example_row 2020 True (Some 3)]\<rparr>"

definition history_only_df :: dataframe where
  "history_only_df =
     \<lparr>columns = [''Forecast'', ''Emissions''],
      rows = [example_row 2019 False (Some 4)]\<rparr>"

definition gap_df :: dataframe where
  "gap_df =
     \<lparr>columns = [''Forecast'', ''Emissions''],
      rows = [example_row 2010 False (Some 9), example_row 2018 False (Some 5),
              example_row 2019 False (Some 4), example_row 2020 True (Some 3)]\<rparr>"

definition example_graph :: PredictionGraph where
  "example_graph =
     \<lparr>sector_name = Some ''Transportation'', title = Some ''Emissions'',
      unit_name = Some ''kt'', y_max = None, smoothing = False, fill = False,
      stacked = False, allow_nonconsecutive_years = False, series_list = [],
      min_year = None, max_year = None, forecast_start_year = None\<rparr>"

definition series_of :: "dataframe \<Rightarrow> PredictionGraphSeries" where
  "series_of d =
     \<lparr>df = d, trace_name = Some ''Emissions'', column_name = ''Emissions'',
      historical_color = None, forecast_color = None, luminance_change = None\<rparr>"

definition year_df :: dataframe where
  "year_df =
     \<lparr>columns = [''Year'', ''Forecast'', ''Emissions''],
      rows = [\<lparr>label = 0, Year = 2018, Forecast = False,
                vals = (\<lambda>c. if c = ''Emissions'' then Some 5 else None)\<rparr>,
              \<lparr>label = 1, Year = 2019, Forecast = True,
                vals = (\<lambda>c. if c = ''Emissions'' then Some 4 else None)\<rparr>]\<rparr>"

text \<open>The traces of the example frames on the example graph, which neither fills nor
  stacks.\<close>

definition example_trace ::
  "string \<Rightarrow> (int \<times> cell) list \<Rightarrow> string list \<Rightarrow> string option \<Rightarrow> trace" where
  "example_trace n ys xs dash =
     \<lparr>tr_type = ''scatter'', tr_x = xs, tr_y = ys, tr_name = Some n,
      tr_hovertemplate = ''%{x}: %{y} kt'', tr_line_color = ''#light'',
      tr_line = \<lparr>ln_width = 4, ln_smoothing = None, ln_shape = None, ln_dash = dash\<rparr>,
      tr_attrs = \<lparr>ta_fill = None, ta_mode = ''lines'', ta_stackgroup = None,
                  ta_fillcolor = None\<rparr>\<rparr>"

definition example_traces :: "trace list" where
  "example_traces =
     [example_trace ''Emissions (enn.)'' [(2019, NumCell 4), (2020, NumCell 3)]
        [''2019'', ''2020''] (Some ''dash''),
      example_trace ''Emissions'' [(2018, NumCell 5), (2019, NumCell 4)]
        [''2018'', ''2019''] None]"

definition history_only_traces :: "trace list" where
  "history_only_traces =
     [example_trace ''Emissions (enn.)'' [(2019, NumCell 4)] [''2019''] (Some ''dash''),
      example_trace ''Emissions'' [(2019, NumCell 4)] [''2019''] None]"


text \<open>The same frame on a graph that fills and stacks, as the second series.\<close>

definition stacked_graph :: PredictionGraph where
  "stacked_graph = example_graph\<lparr>fill := True, stacked := True\<rparr>"

definition stacked_trace ::
  "string \<Rightarrow> (int \<times> cell) list \<Rightarrow> string list \<Rightarrow> string \<Rightarrow> trace" where
  "stacked_trace n ys xs stackgroup =
     \<lparr>tr_type = ''scatter'', tr_x = xs, tr_y = ys, tr_name = Some n,
      tr_hovertemplate = ''%{x}: %{y} kt'', tr_line_color = ''#light'',
      tr_line = \<lparr>ln_width = 4, ln_smoothing = None, ln_shape = None, ln_dash = None\<rparr>,
      tr_attrs = \<lparr>ta_fill = Some ''tonexty'', ta_mode = ''none'',
                  ta_stackgroup = Some stackgroup, ta_fillcolor = Some ''#light''\<rparr>\<rparr>"

definition stacked_traces :: "trace list" where
  "stacked_traces =
     [stacked_trace ''Emissions (enn.)'' [(2019, NumCell 4), (2020, NumCell 3)]
        [''2019'', ''2020''] ''forecast'',
      stacked_trace ''Emissions'' [(2018, NumCell 5), (2019, NumCell 4)]
        [''2018'', ''2019''] ''history'']"

text \<open>Two more series on the example frame: one with a luminance change, one with a
  historical colour of its own.\<close>

definition darker_series :: PredictionGraphSeries where
  "darker_series = (series_of example_df)\<lparr>luminance_change := Some (- 3 / 10)\<rparr>"

definition navy_series :: PredictionGraphSeries where
  "navy_series = (series_of example_df)\<lparr>historical_color := Some ''#000080''\<rparr>"

text \<open>
  A graph with two series, and a graph over a long range of years with the ticks of its
  x axis.
\<close>

definition earlier_df :: dataframe where
  "earlier_df =
     \<lparr>columns = [''Forecast'', ''Emissions''],
      rows = [example_row 2015 False (Some 8), example_row 2016 False (Some 7),
              example_row 2017 True (Some 6)]\<rparr>"

definition example_args :: "series_args list" where
  "example_args =
     [(example_df, Some ''Emissions'', StrName ''Emissions'', None, None, None),
      (earlier_df, Some ''Emissions'', NoName, None, None, None)]"

definition two_series_graph :: PredictionGraph where
  "two_series_graph =
     example_graph\<lparr>series_list := [series_of example_df, series_of earlier_df],
       min_year := Some (Val 2015), max_year := Some (Val 2020),
       forecast_start_year := Some (Val 2016)\<rparr>"

definition long_df :: dataframe where
  "long_df =
     \<lparr>columns = [''Forecast'', ''Emissions''],
      rows = [example_row 2000 False (Some 9), example_row 2018 False (Some 5),
              example_row 2035 True (Some 1)]\<rparr>"

definition long_graph :: PredictionGraph where
  "long_graph =
     example_graph\<lparr>series_list := [series_of long_df],
       min_year := Some (Val 2000), max_year := Some (Val 2035),
       forecast_start_year := Some (Val 2018)\<rparr>"

definition long_ticks :: "int list" where
  "long_ticks = [2000, 2005, 2010, 2015, 2018, 2025, 2030, 2035]"

definition long_labels :: "string list" where
  "long_labels =
     [''2000'', ''2005'', ''2010'', ''2015'', ''2018'', ''2025'', ''2030'', ''2035'']"

text \<open>Frames with forecast rows only, with no rows, and with the largest 64-bit year, and
  the graphs of the first and the last.\<close>

definition args_of :: "dataframe \<Rightarrow> series_args" where
  "args_of d = (d, Some ''Emissions'', StrName ''Emissions'', None, None, None)"

definition forecast_only_df :: dataframe where
  "forecast_only_df =
     \<lparr>columns = [''Forecast'', ''Emissions''],
      rows = [example_row 2020 True (Some 3), example_row 2021 True (Some 2)]\<rparr>"

definition empty_df :: dataframe where
  "empty_df = \<lparr>columns = [''Forecast'', ''Emissions''], rows = []\<rparr>"

definition last_year_df :: dataframe where
  "last_year_df =
     \<lparr>columns = [''Forecast'', ''Emissions''],
      rows = [example_row 9223372036854775806 False (Some 2),
              example_row 9223372036854775807 True (Some 1)]\<rparr>"

definition forecast_only_graph :: PredictionGraph where
  "forecast_only_graph =
     example_graph\<lparr>series_list := [series_of forecast_only_df],
       min_year := Some (Val 2020), max_year := Some (Val 2021),
       forecast_start_year := Some NaN\<rparr>"

definition last_year_graph :: PredictionGraph where
  "last_year_graph =
     example_graph\<lparr>series_list := [series_of last_year_df],
       min_year := Some (Val 9223372036854775806),
       max_year := Some (Val 9223372036854775807),
       forecast_start_year := Some (Val 9223372036854775806)\<rparr>"

text \<open>
  Keyword arguments for \<open>make_layout\<close>, and a printing of the values that are neither
  strings nor integers.
\<close>

definition example_repr :: "pyval \<Rightarrow> string" where
  "example_repr v = ''...''"

definition example_kwargs :: pydict where
  "example_kwargs =
     [(''title'', PyStr ''Emissions''),
      (''xaxis'', PyDict [(''fixedrange'', PyBool False), (''tickvals'', PyList [PyInt 2018])]),
      (''height'', PyInt 450)]"

text \<open>Keyword arguments with a legend, and the x axis that the first keyword arguments
  give.\<close>

definition legend_kwargs :: pydict where
  "legend_kwargs = [(''legend'', PyDict [(''orientation'', PyStr ''h'')])]"

definition example_xaxis :: pydict where
  "example_xaxis =
     [(''showgrid'', PyBool False),
      (''showline'', PyBool False),
      (''anchor'', PyStr ''free''),
      (''domain'', PyList [PyFloat 0.01, PyInt 1]),
      (''tickfont'', PyDict font_params),
      (''gridwidth'', PyInt 1),
      (''gridcolor'', PyStr ''#ccc''),
      (''fixedrange'', PyBool False),
      (''tickvals'', PyList [PyInt 2018])]"

section \<open>Properties\<close>

subsection \<open>Auxiliary facts\<close>

lemma forecast_name_differs: "forecast_name s \<noteq> trace_name s"
proof (cases "trace_name s")
  case None
  then show ?thesis by (simp add: forecast_name_def)
next
  case (Some n)
  have "length (n @ '' (enn.)'') \<noteq> length n" by simp
  then have "n @ '' (enn.)'' \<noteq> n" by metis
  with Some show ?thesis by (simp add: forecast_name_def)
qed

lemma dropna_simps:
  "dropna [] = []"
  "dropna ((i, None) # xs) = dropna xs"
  "dropna ((i, Some v) # xs) = (i, v) # dropna xs"
  by (simp_all add: dropna_def List.map_filter_def)

lemma dropna_loc_set:
  "(i, v) \<in> set (dropna (map (\<lambda>r. (label r, cell_of r c)) (filter P rs)))
     \<longleftrightarrow> (\<exists>r\<in>set rs. P r \<and> label r = i \<and> cell_of r c = Some v)"
proof (induction rs)
  case Nil
  show ?case by (simp add: dropna_simps)
next
  case (Cons r rs)
  show ?case
  proof (cases "P r")
    case False
    with Cons show ?thesis by auto
  next
    case True
    with Cons show ?thesis
      by (cases "cell_of r c") (auto simp: dropna_simps)
  qed
qed

lemma dropna_loc_empty:
  "dropna (map (\<lambda>r. (label r, cell_of r c)) (filter P rs)) = []
     \<longleftrightarrow> (\<forall>r\<in>set rs. P r \<longrightarrow> cell_of r c = None)"
proof (induction rs)
  case Nil
  show ?case by (simp add: dropna_simps)
next
  case (Cons r rs)
  show ?case
  proof (cases "P r")
    case False
    with Cons show ?thesis by auto
  next
    case True
    with Cons show ?thesis
      by (cases "cell_of r c") (auto simp: dropna_simps)
  qed
qed

lemma index_max_Val: "xs \<noteq> [] \<Longrightarrow> index_max xs = Val (Max (set xs))"
proof (cases xs)
  case (Cons a list)
  then show ?thesis using Max.set_eq_fold [of a list] by simp
qed simp

lemma index_min_Val: "xs \<noteq> [] \<Longrightarrow> index_min xs = Val (Min (set xs))"
proof (cases xs)
  case (Cons a list)
  then show ?thesis using Min.set_eq_fold [of a list] by simp
qed simp

lemma hist_series_of_Inr:
  "hist_series_of d start y = Inr hs \<Longrightarrow>
     y \<in> set (columns d) \<and>
     hs = dropna (map (\<lambda>r. (label r, cell_of r y))
            (filter (\<lambda>r. \<not> Forecast r \<and> label_ge (label r) start) (rows d)))"
  by (auto simp: hist_series_of_def loc_def split: if_splits)

lemma forecast_series_of_Inr:
  "forecast_series_of d hs y = Inr fs \<Longrightarrow>
     y \<in> set (columns d) \<and>
     fs = dropna (map (\<lambda>r. (label r, cell_of r y))
            (filter (\<lambda>r. Forecast r \<or> (hs \<noteq> [] \<and> label_eq (label r) (index_max (map fst hs))))
               (rows d)))"
  by (auto simp: forecast_series_of_def loc_def Let_def split: if_splits)

lemma get_traces_for_series_Inr:
  assumes "get_traces_for_series env g s idx hm = Inr ts"
  shows "\<exists>start hs fs hts ta'.
           start_year_of env g (df s) = Inr start \<and>
           hist_series_of (df s) start (column_name s) = Inr hs \<and>
           forecast_series_of (df s) hs (column_name s) = Inr fs \<and>
           hist_part env g s (initial_trace_attrs g idx) (initial_line_attrs g) hs = Inr (hts, ta') \<and>
           forecast_part env g s ta' (initial_line_attrs g) fs hts = Inr ts"
  using assms
  by (auto simp: get_traces_for_series_def Let_def split: sum.splits prod.splits)

lemma hist_part_Inr:
  assumes "hist_part env g s ta la hs = Inr (hts, ta')"
  shows "(hs = [] \<and> hts = [] \<and> ta' = ta) \<or>
         (hs \<noteq> [] \<and> (\<exists>c. get_color env g s False = Inr c \<and>
            hts = [fst (hist_trace_of g s ta la hs c)] \<and> ta' = snd (hist_trace_of g s ta la hs c)))"
  using assms
  by (auto simp: hist_part_def split: if_splits sum.splits prod.splits)

lemma forecast_part_Inr:
  assumes "forecast_part env g s ta la fs hts = Inr ts"
  shows "(fs = [] \<and> ts = hts) \<or>
         (fs \<noteq> [] \<and> (\<exists>c. get_color env g s True = Inr c \<and>
            ts = forecast_trace_of g s ta la fs c # hts))"
  using assms
  by (auto simp: forecast_part_def split: if_splits sum.splits)

lemma hist_trace_fields:
  "tr_name (fst (hist_trace_of g s ta la hs c)) = trace_name s"
  "tr_y (fst (hist_trace_of g s ta la hs c)) = hs"
  "tr_x (fst (hist_trace_of g s ta la hs c)) = map (str_int \<circ> fst) hs"
  "tr_line (fst (hist_trace_of g s ta la hs c)) = la"
  "ta_fill (tr_attrs (fst (hist_trace_of g s ta la hs c))) = ta_fill ta"
  "ta_mode (tr_attrs (fst (hist_trace_of g s ta la hs c))) = ta_mode ta"
  "ta_fill (snd (hist_trace_of g s ta la hs c)) = ta_fill ta"
  "ta_mode (snd (hist_trace_of g s ta la hs c)) = ta_mode ta"
  by (auto simp: hist_trace_of_def Let_def o_def split_def)

lemma forecast_trace_fields:
  "tr_name (forecast_trace_of g s ta la fs c) = forecast_name s"
  "tr_y (forecast_trace_of g s ta la fs c) = fs"
  "tr_x (forecast_trace_of g s ta la fs c) = map (str_int \<circ> fst) fs"
  "ln_dash (tr_line (forecast_trace_of g s ta la fs c)) = (if fill g then ln_dash la else Some ''dash'')"
  "ta_fill (tr_attrs (forecast_trace_of g s ta la fs c)) = ta_fill ta"
  "ta_mode (tr_attrs (forecast_trace_of g s ta la fs c)) = ta_mode ta"
  by (auto simp: forecast_trace_of_def forecast_name_def Let_def o_def split_def)

text \<open>The shape of a result.\<close>

lemma traces_shape:
  assumes "get_traces_for_series env g s idx hm = Inr ts"
  shows "\<exists>start hs fs.
           start_year_of env g (df s) = Inr start \<and>
           hist_series_of (df s) start (column_name s) = Inr hs \<and>
           forecast_series_of (df s) hs (column_name s) = Inr fs \<and>
           map tr_name ts = (if fs = [] then [] else [forecast_name s]) @ (if hs = [] then [] else [trace_name s]) \<and>
           map tr_y ts = (if fs = [] then [] else [fs]) @ (if hs = [] then [] else [hs])"
proof -
  from get_traces_for_series_Inr [OF assms] obtain start hs fs hts ta' where
    a: "start_year_of env g (df s) = Inr start"
      "hist_series_of (df s) start (column_name s) = Inr hs"
      "forecast_series_of (df s) hs (column_name s) = Inr fs"
    and h: "hist_part env g s (initial_trace_attrs g idx) (initial_line_attrs g) hs = Inr (hts, ta')"
    and f: "forecast_part env g s ta' (initial_line_attrs g) fs hts = Inr ts"
    by blast
  from hist_part_Inr [OF h] have
    hn: "map tr_name hts = (if hs = [] then [] else [trace_name s])"
    and hy: "map tr_y hts = (if hs = [] then [] else [hs])"
    by (auto simp: hist_trace_fields)
  from forecast_part_Inr [OF f] have
    "map tr_name ts = (if fs = [] then [] else [forecast_name s]) @ map tr_name hts"
    "map tr_y ts = (if fs = [] then [] else [fs]) @ map tr_y hts"
    by (auto simp: forecast_trace_fields)
  with a hn hy show ?thesis by auto
qed

lemma traces_split:
  assumes "get_traces_for_series env g s idx hm = Inr ts"
  shows "\<exists>start hs fs.
           start_year_of env g (df s) = Inr start \<and>
           hist_series_of (df s) start (column_name s) = Inr hs \<and>
           forecast_series_of (df s) hs (column_name s) = Inr fs \<and>
           ts = forecast_traces s ts @ historical_traces s ts \<and>
           map tr_y (forecast_traces s ts) = (if fs = [] then [] else [fs]) \<and>
           map tr_y (historical_traces s ts) = (if hs = [] then [] else [hs])"
proof -
  from traces_shape [OF assms] obtain start hs fs where
    a: "start_year_of env g (df s) = Inr start"
      "hist_series_of (df s) start (column_name s) = Inr hs"
      "forecast_series_of (df s) hs (column_name s) = Inr fs"
    and n: "map tr_name ts = (if fs = [] then [] else [forecast_name s]) @ (if hs = [] then [] else [trace_name s])"
    and y: "map tr_y ts = (if fs = [] then [] else [fs]) @ (if hs = [] then [] else [hs])"
    by blast
  have "ts = forecast_traces s ts @ historical_traces s ts \<and>
        map tr_y (forecast_traces s ts) = (if fs = [] then [] else [fs]) \<and>
        map tr_y (historical_traces s ts) = (if hs = [] then [] else [hs])"
  proof (cases "fs = []"; cases "hs = []")
    assume "fs = []" "hs = []"
    with n y show ?thesis
      by (simp add: historical_traces_def forecast_traces_def)
  next
    assume "fs = []" "hs \<noteq> []"
    with n y obtain t where "ts = [t]" "tr_name t = trace_name s" "tr_y t = hs" by auto
    with \<open>fs = []\<close> \<open>hs \<noteq> []\<close> show ?thesis
      using forecast_name_differs [of s]
      by (auto simp add: historical_traces_def forecast_traces_def)
  next
    assume "fs \<noteq> []" "hs = []"
    with n y obtain t where "ts = [t]" "tr_name t = forecast_name s" "tr_y t = fs" by auto
    with \<open>hs = []\<close> \<open>fs \<noteq> []\<close> show ?thesis
      using forecast_name_differs [of s]
      by (auto simp add: historical_traces_def forecast_traces_def)
  next
    assume "fs \<noteq> []" "hs \<noteq> []"
    with n y obtain t u where "ts = [t, u]" "tr_name t = forecast_name s" "tr_y t = fs"
       "tr_name u = trace_name s" "tr_y u = hs" by auto
    with \<open>hs \<noteq> []\<close> \<open>fs \<noteq> []\<close> show ?thesis
      using forecast_name_differs [of s]
      by (auto simp add: historical_traces_def forecast_traces_def)
  qed
  with a show ?thesis by blast
qed

lemma traces_points:
  assumes "get_traces_for_series env g s idx hm = Inr ts"
  shows "\<exists>start.
           start_year_of env g (df s) = Inr start \<and>
           hist_series_of (df s) start (column_name s) = Inr (historical_points s ts) \<and>
           forecast_series_of (df s) (historical_points s ts) (column_name s)
             = Inr (forecast_points s ts)"
proof -
  from traces_split [OF assms] obtain start hs fs where
    a: "start_year_of env g (df s) = Inr start"
      "hist_series_of (df s) start (column_name s) = Inr hs"
      "forecast_series_of (df s) hs (column_name s) = Inr fs"
    and yf: "map tr_y (forecast_traces s ts) = (if fs = [] then [] else [fs])"
    and yh: "map tr_y (historical_traces s ts) = (if hs = [] then [] else [hs])"
    by blast
  from yh have "historical_points s ts = hs" by (simp add: historical_points_def)
  moreover from yf have "forecast_points s ts = fs" by (simp add: forecast_points_def)
  ultimately show ?thesis using a by auto
qed

subsection \<open>The constructor of a series\<close>

lemma post_init_frame_cols:
  "post_init_frame d =
     (if ''Forecast'' \<notin> set (columns d) then Inl AssertionError
      else Inr (if ''Year'' \<in> set (columns d) then set_index_Year d else d,
                remove1 ''Year'' (remove1 ''Forecast'' (columns d))))"
  by (auto simp: post_init_frame_def Let_def remove1_idem)

lemma post_init_named:
  assumes "s \<noteq> []"
  shows "post_init d tn (StrName s) hc fc lc =
     (if ''Forecast'' \<notin> set (columns d) then Inl AssertionError
      else Inr \<lparr>df = (if ''Year'' \<in> set (columns d) then set_index_Year d else d),
                trace_name = tn, column_name = s,
                historical_color = hc, forecast_color = fc, luminance_change = lc\<rparr>)"
  using assms by (simp add: post_init_def post_init_frame_cols)

lemma post_init_unnamed:
  assumes "\<not> truthy_name cn"
  shows "post_init d tn cn hc fc lc =
     (if ''Forecast'' \<notin> set (columns d)
         \<or> length (remove1 ''Year'' (remove1 ''Forecast'' (columns d))) \<noteq> 1
      then Inl AssertionError
      else Inr \<lparr>df = (if ''Year'' \<in> set (columns d) then set_index_Year d else d),
                trace_name = tn,
                column_name = hd (remove1 ''Year'' (remove1 ''Forecast'' (columns d))),
                historical_color = hc, forecast_color = fc, luminance_change = lc\<rparr>)"
  using assms by (simp add: post_init_def post_init_frame_cols)

lemma post_init_df:
  assumes "post_init d tn cn hc fc lc = Inr sr"
  shows "df sr = (if ''Year'' \<in> set (columns d) then set_index_Year d else d)"
  using assms
  by (auto simp: post_init_def post_init_frame_cols split: if_splits name_arg.splits)

lemma singleton_hd: "length xs = 1 \<Longrightarrow> xs = [hd xs]"
  by (cases xs) simp_all

text \<open>
  C10, as the claim states it, fails: the empty string is a string, and the constructor
  treats it as no name at all, so that a frame with a \<^verbatim>\<open>Forecast\<close> column and two value
  columns is refused.
\<close>

theorem post_init_empty_name_refused:
  "post_init \<lparr>columns = [''A'', ''B'', ''Forecast''], rows = []\<rparr>
       None (StrName '''') None None None = Inl AssertionError
   \<and> ''Forecast'' \<in> set (columns \<lparr>columns = [''A'', ''B'', ''Forecast''], rows = []\<rparr>)"
  by (simp add: post_init_def post_init_frame_def)

text \<open>
  C10, amended. With a column name that is a string and not empty, the constructor fails
  with an assertion error if and only if the frame has no \<^verbatim>\<open>Forecast\<close> column, and
  otherwise keeps the name. With no column name (\<^verbatim>\<open>None\<close>, or a value that counts as
  false such as the empty string) it succeeds if and only if, beyond that, exactly one
  column is left after \<^verbatim>\<open>Forecast\<close> and \<^verbatim>\<open>Year\<close> are removed, and that column
  becomes the column name. Whenever it succeeds and the frame has a \<^verbatim>\<open>Year\<close> column,
  that column has become the index and is no column any more; otherwise the frame is
  unchanged.
\<close>

theorem post_init_assertions:
  "(s \<noteq> [] \<longrightarrow>
      (post_init d tn (StrName s) hc fc lc = Inl AssertionError
         \<longleftrightarrow> ''Forecast'' \<notin> set (columns d)) \<and>
      (''Forecast'' \<in> set (columns d) \<longrightarrow>
         (\<exists>sr. post_init d tn (StrName s) hc fc lc = Inr sr \<and> column_name sr = s)))
   \<and> (\<not> truthy_name cn \<longrightarrow>
      ((\<exists>sr. post_init d tn cn hc fc lc = Inr sr)
         \<longleftrightarrow> ''Forecast'' \<in> set (columns d)
             \<and> length (remove1 ''Year'' (remove1 ''Forecast'' (columns d))) = 1) \<and>
      (post_init d tn cn hc fc lc = Inl AssertionError
         \<longleftrightarrow> \<not> (''Forecast'' \<in> set (columns d)
             \<and> length (remove1 ''Year'' (remove1 ''Forecast'' (columns d))) = 1)) \<and>
      (\<forall>sr. post_init d tn cn hc fc lc = Inr sr \<longrightarrow>
         remove1 ''Year'' (remove1 ''Forecast'' (columns d)) = [column_name sr]))
   \<and> (\<forall>sr. post_init d tn cn hc fc lc = Inr sr \<longrightarrow>
         (if ''Year'' \<in> set (columns d)
          then index (df sr) = map Year (rows d) \<and> ''Year'' \<notin> set (columns (df sr))
          else df sr = d))"
proof (intro conjI impI allI)
  assume "s \<noteq> []"
  then show "post_init d tn (StrName s) hc fc lc = Inl AssertionError
      \<longleftrightarrow> ''Forecast'' \<notin> set (columns d)"
    by (simp add: post_init_named)
next
  assume "s \<noteq> []" "''Forecast'' \<in> set (columns d)"
  then show "\<exists>sr. post_init d tn (StrName s) hc fc lc = Inr sr \<and> column_name sr = s"
    by (simp add: post_init_named)
next
  assume "\<not> truthy_name cn"
  then show "(\<exists>sr. post_init d tn cn hc fc lc = Inr sr)
      \<longleftrightarrow> ''Forecast'' \<in> set (columns d)
          \<and> length (remove1 ''Year'' (remove1 ''Forecast'' (columns d))) = 1"
    by (auto simp: post_init_unnamed)
next
  assume "\<not> truthy_name cn"
  then show "post_init d tn cn hc fc lc = Inl AssertionError
      \<longleftrightarrow> \<not> (''Forecast'' \<in> set (columns d)
          \<and> length (remove1 ''Year'' (remove1 ''Forecast'' (columns d))) = 1)"
    by (auto simp: post_init_unnamed)
next
  fix sr
  assume "\<not> truthy_name cn" "post_init d tn cn hc fc lc = Inr sr"
  then have "length (remove1 ''Year'' (remove1 ''Forecast'' (columns d))) = 1"
    and "column_name sr = hd (remove1 ''Year'' (remove1 ''Forecast'' (columns d)))"
    by (auto simp: post_init_unnamed split: if_splits)
  then show "remove1 ''Year'' (remove1 ''Forecast'' (columns d)) = [column_name sr]"
    using singleton_hd by metis
next
  fix sr
  assume "post_init d tn cn hc fc lc = Inr sr"
  then have "df sr = (if ''Year'' \<in> set (columns d) then set_index_Year d else d)"
    by (rule post_init_df)
  then show "if ''Year'' \<in> set (columns d)
      then index (df sr) = map Year (rows d) \<and> ''Year'' \<notin> set (columns (df sr))
      else df sr = d"
    by (simp add: index_def set_index_Year_def o_def)
qed

theorem post_init_assertions_witness:
  "''Emissions'' \<noteq> [] \<and> \<not> truthy_name NoName
   \<and> ''Forecast'' \<in> set (columns year_df) \<and> ''Year'' \<in> set (columns year_df)
   \<and> (\<exists>sr. post_init year_df None (StrName ''Emissions'') None None None = Inr sr
          \<and> column_name sr = ''Emissions'')
   \<and> (\<exists>sr. post_init year_df None NoName None None None = Inr sr
          \<and> [column_name sr] = [''Emissions''] \<and> index (df sr) = [2018, 2019])"
proof -
  have a: "''Emissions'' \<noteq> []" "\<not> truthy_name NoName"
    "''Forecast'' \<in> set (columns year_df)" "''Year'' \<in> set (columns year_df)"
    "remove1 ''Year'' (remove1 ''Forecast'' (columns year_df)) = [''Emissions'']"
    "map Year (rows year_df) = [2018, 2019]"
    by (simp_all add: year_df_def)
  note t = post_init_assertions [of "''Emissions''" year_df None None None None NoName]
  from t a have 1: "\<exists>sr. post_init year_df None (StrName ''Emissions'') None None None = Inr sr
          \<and> column_name sr = ''Emissions''"
    by blast
  from t a obtain sr where sr: "post_init year_df None NoName None None None = Inr sr"
    by auto
  with t a have "[''Emissions''] = [column_name sr]" "index (df sr) = [2018, 2019]"
    by auto
  with sr have 2: "\<exists>sr. post_init year_df None NoName None None None = Inr sr
          \<and> [column_name sr] = [''Emissions''] \<and> index (df sr) = [2018, 2019]"
    by auto
  from a 1 2 show ?thesis by blast
qed

subsection \<open>The traces of a series\<close>

lemma hist_max_row:
  assumes "hs = dropna (map (\<lambda>r. (label r, cell_of r y)) (filter P rs))" "hs \<noteq> []"
  shows "\<exists>r\<in>set rs. P r \<and> label_eq (label r) (index_max (map fst hs)) \<and> cell_of r y \<noteq> None"
proof -
  from assms(2) have ne: "map fst hs \<noteq> []" by simp
  then have m: "index_max (map fst hs) = Val (Max (set (map fst hs)))"
    by (rule index_max_Val)
  from ne have "Max (set (map fst hs)) \<in> set (map fst hs)"
    by (intro Max_in) simp_all
  then obtain v where "(Max (set (map fst hs)), v) \<in> set hs" by auto
  with assms(1) obtain r where "r \<in> set rs" "P r" "label r = Max (set (map fst hs))"
      "cell_of r y = Some v"
    by (auto simp: dropna_loc_set)
  with m show ?thesis by auto
qed

lemma forecast_nonempty_iff:
  assumes h: "hist_series_of d start y = Inr hs"
    and f: "forecast_series_of d hs y = Inr fs"
  shows "fs \<noteq> [] \<longleftrightarrow> hs \<noteq> [] \<or> (\<exists>r\<in>set (rows d). Forecast r \<and> cell_of r y \<noteq> None)"
proof -
  note H = hist_series_of_Inr [OF h] and F = forecast_series_of_Inr [OF f]
  show ?thesis
  proof (cases "hs = []")
    case True
    with F show ?thesis by (auto simp: dropna_loc_empty)
  next
    case False
    from hist_max_row [OF _ False] H obtain r where "r \<in> set (rows d)"
      "label_eq (label r) (index_max (map fst hs))" "cell_of r y \<noteq> None"
      by blast
    with False F have "fs \<noteq> []" by (auto simp: dropna_loc_empty)
    with False show ?thesis by simp
  qed
qed

lemma hist_nonempty_iff:
  assumes h: "hist_series_of d start y = Inr hs"
  shows "hs \<noteq> [] \<longleftrightarrow>
     (\<exists>r\<in>set (rows d). \<not> Forecast r \<and> label_ge (label r) start \<and> cell_of r y \<noteq> None)"
  using hist_series_of_Inr [OF h] by (auto simp: dropna_loc_empty)


lemmas example_defs =
  example_externals_def example_graph_def series_of_def example_df_def history_only_df_def
  gap_df_def example_row_def consecutive_start_def

lemmas traces_defs =
  get_traces_for_series_def start_year_of_def hist_series_of_def loc_def
  dropna_def List.map_filter_def cell_of_def hist_part_def get_color_def derived_color_def
  change_luminance_def lighten_forecast_def hist_trace_of_def forecast_series_of_def
  forecast_part_def forecast_trace_of_def index_def Let_def initial_trace_attrs_def
  initial_line_attrs_def hovertemplate_of_def str_int_def str_nat.simps


lemma traces_attrs:
  assumes "get_traces_for_series env g s idx hm = Inr ts"
  shows "\<forall>t\<in>set ts.
           ta_fill (tr_attrs t) = ta_fill (initial_trace_attrs g idx) \<and>
           ta_mode (tr_attrs t) = ta_mode (initial_trace_attrs g idx) \<and>
           ln_dash (tr_line t) =
             (if tr_name t = forecast_name s \<and> \<not> fill g then Some ''dash'' else None)"
proof -
  from get_traces_for_series_Inr [OF assms] obtain hs fs hts ta' where
    h: "hist_part env g s (initial_trace_attrs g idx) (initial_line_attrs g) hs = Inr (hts, ta')"
    and f: "forecast_part env g s ta' (initial_line_attrs g) fs hts = Inr ts"
    by blast
  have d: "ln_dash (initial_line_attrs g) = None"
    by (simp add: initial_line_attrs_def)
  from hist_part_Inr [OF h] have
    ta: "ta_fill ta' = ta_fill (initial_trace_attrs g idx)"
        "ta_mode ta' = ta_mode (initial_trace_attrs g idx)"
    and hts: "\<forall>t\<in>set hts.
           ta_fill (tr_attrs t) = ta_fill (initial_trace_attrs g idx) \<and>
           ta_mode (tr_attrs t) = ta_mode (initial_trace_attrs g idx) \<and>
           ln_dash (tr_line t) = None \<and> tr_name t = trace_name s"
    by (auto simp: hist_trace_fields d)
  from forecast_part_Inr [OF f] show ?thesis
    using ta hts forecast_name_differs [of s]
    by (auto simp: forecast_trace_fields d)
qed


lemma same_label_same_row:
  assumes "distinct (map label rs)" "r \<in> set rs" "r' \<in> set rs" "label r' = label r"
  shows "r' = r"
  using assms by (meson distinct_map inj_onD)

lemma segment_membership:
  assumes "get_traces_for_series env g s idx hm = Inr ts"
  shows "\<exists>start. start_year_of env g (df s) = Inr start \<and>
     (\<forall>i v. (i, v) \<in> set (historical_points s ts) \<longleftrightarrow>
        (\<exists>r\<in>set (rows (df s)). \<not> Forecast r \<and> label_ge (label r) start \<and> label r = i
            \<and> cell_of r (column_name s) = Some v)) \<and>
     (\<forall>i v. (i, v) \<in> set (forecast_points s ts) \<longleftrightarrow>
        (\<exists>r\<in>set (rows (df s)).
            (Forecast r \<or> (historical_points s ts \<noteq> []
                 \<and> label_eq (label r) (index_max (map fst (historical_points s ts)))))
            \<and> label r = i \<and> cell_of r (column_name s) = Some v))"
proof -
  from traces_points [OF assms] obtain start where
    a: "start_year_of env g (df s) = Inr start"
    and h: "hist_series_of (df s) start (column_name s) = Inr (historical_points s ts)"
    and f: "forecast_series_of (df s) (historical_points s ts) (column_name s) = Inr (forecast_points s ts)"
    by blast
  from hist_series_of_Inr [OF h] have
    1: "\<forall>i v. (i, v) \<in> set (historical_points s ts) \<longleftrightarrow>
        (\<exists>r\<in>set (rows (df s)). \<not> Forecast r \<and> label_ge (label r) start \<and> label r = i
            \<and> cell_of r (column_name s) = Some v)"
    using dropna_loc_set [of _ _ "column_name s" "\<lambda>r. \<not> Forecast r \<and> label_ge (label r) start" "rows (df s)"]
    by auto
  from forecast_series_of_Inr [OF f] have
    2: "\<forall>i v. (i, v) \<in> set (forecast_points s ts) \<longleftrightarrow>
        (\<exists>r\<in>set (rows (df s)).
            (Forecast r \<or> (historical_points s ts \<noteq> []
                 \<and> label_eq (label r) (index_max (map fst (historical_points s ts)))))
            \<and> label r = i \<and> cell_of r (column_name s) = Some v)"
    using dropna_loc_set [of _ _ "column_name s" "\<lambda>r. Forecast r \<or> (historical_points s ts \<noteq> []
                 \<and> label_eq (label r) (index_max (map fst (historical_points s ts))))" "rows (df s)"]
    by auto
  from a 1 2 show ?thesis by blast
qed

lemma last_year_iff:
  assumes "(i, v) \<in> set hs"
  shows "label_eq i (index_max (map fst hs)) \<longleftrightarrow> (\<forall>p\<in>set hs. fst p \<le> i)"
proof -
  let ?S = "set (map fst hs)"
  from assms have ne: "map fst hs \<noteq> []" by auto
  from assms have i: "i \<in> ?S" by force
  have fin: "finite ?S" by simp
  have "Max ?S = i \<longleftrightarrow> (\<forall>j\<in>?S. j \<le> i)"
  proof
    assume "Max ?S = i"
    then show "\<forall>j\<in>?S. j \<le> i" using Max_ge [OF fin] by blast
  next
    assume "\<forall>j\<in>?S. j \<le> i"
    then show "Max ?S = i" using i fin by (intro Max_eqI) auto
  qed
  moreover have "(\<forall>j\<in>?S. j \<le> i) \<longleftrightarrow> (\<forall>p\<in>set hs. fst p \<le> i)" by auto
  ultimately show ?thesis
    using index_max_Val [OF ne] by auto
qed

subsection \<open>The example frames\<close>

lemma example_run:
  "get_traces_for_series example_externals example_graph (series_of example_df) 0 False
     = Inr example_traces"
  by (simp add: example_defs traces_defs example_traces_def example_trace_def)

lemma history_only_run:
  "get_traces_for_series example_externals example_graph (series_of history_only_df) 0 False
     = Inr history_only_traces"
  by (simp add: example_defs traces_defs history_only_traces_def example_trace_def)



lemma stacked_run:
  "get_traces_for_series example_externals stacked_graph (series_of example_df) 1 True
     = Inr stacked_traces"
  by (simp add: example_defs traces_defs stacked_graph_def stacked_traces_def stacked_trace_def)

lemmas reading_defs =
  historical_traces_def forecast_traces_def historical_points_def forecast_points_def
  forecast_name_def

subsection \<open>Historical and forecast segments\<close>

text \<open>
  C1, as the claim states it, fails: the two traces are not disjoint. On the example
  frame the point of the year 2019, the last historical year, is in the historical trace
  and in the forecast trace.
\<close>

theorem last_historical_point_in_both_traces:
  "map_sum id (historical_points (series_of example_df))
      (get_traces_for_series example_externals example_graph (series_of example_df) 0 False)
     = Inr [(2018, NumCell 5), (2019, NumCell 4)]
   \<and> map_sum id (forecast_points (series_of example_df))
      (get_traces_for_series example_externals example_graph (series_of example_df) 0 False)
     = Inr [(2019, NumCell 4), (2020, NumCell 3)]"
  by (simp add: example_run)
     (simp add: reading_defs example_traces_def example_trace_def series_of_def)

text \<open>
  C1, amended. Let the index years of the frame be distinct, and take a row with a value
  in the plotted column. If the row has \<^verbatim>\<open>Forecast\<close> false and its point is plotted in
  the forecast trace, the point is in the historical trace too. If the row has
  \<^verbatim>\<open>Forecast\<close> true, its point is in the forecast trace and not in the historical
  trace. The point is in both traces exactly when it is in the historical trace and no
  point of the historical trace has a later year: the forecast trace repeats the row of
  the last historical year.
\<close>

theorem segments_of_traces:
  assumes "get_traces_for_series env g s idx hm = Inr ts"
    and "distinct (index (df s))"
    and "r \<in> set (rows (df s))"
    and "cell_of r (column_name s) = Some v"
  shows "(\<not> Forecast r \<and> (label r, v) \<in> set (forecast_points s ts)
            \<longrightarrow> (label r, v) \<in> set (historical_points s ts))
       \<and> (Forecast r \<longrightarrow> (label r, v) \<in> set (forecast_points s ts)
                           \<and> (label r, v) \<notin> set (historical_points s ts))
       \<and> ((label r, v) \<in> set (historical_points s ts)
             \<and> (label r, v) \<in> set (forecast_points s ts)
           \<longleftrightarrow> (label r, v) \<in> set (historical_points s ts)
                 \<and> (\<forall>p\<in>set (historical_points s ts). fst p \<le> label r))"
proof -
  let ?hs = "historical_points s ts" and ?fs = "forecast_points s ts"
  from segment_membership [OF assms(1)] obtain start where
    h: "\<And>i v. (i, v) \<in> set ?hs \<longleftrightarrow>
        (\<exists>r\<in>set (rows (df s)). \<not> Forecast r \<and> label_ge (label r) start \<and> label r = i
            \<and> cell_of r (column_name s) = Some v)"
    and f: "\<And>i v. (i, v) \<in> set ?fs \<longleftrightarrow>
        (\<exists>r\<in>set (rows (df s)).
            (Forecast r \<or> (?hs \<noteq> [] \<and> label_eq (label r) (index_max (map fst ?hs))))
            \<and> label r = i \<and> cell_of r (column_name s) = Some v)"
    by blast
  from assms(2) have d: "distinct (map label (rows (df s)))"
    by (simp add: index_def)
  have same: "\<And>r'. r' \<in> set (rows (df s)) \<Longrightarrow> label r' = label r \<Longrightarrow> r' = r"
    using same_label_same_row [OF d assms(3)] by blast
  have hr: "(label r, v) \<in> set ?hs \<longleftrightarrow> \<not> Forecast r \<and> label_ge (label r) start"
    using h [of "label r" v] same assms(3,4) by auto
  have fr: "(label r, v) \<in> set ?fs \<longleftrightarrow>
      Forecast r \<or> (?hs \<noteq> [] \<and> label_eq (label r) (index_max (map fst ?hs)))"
    using f [of "label r" v] same assms(3,4) by auto
  have ge: "label_ge (label r) start"
    if "?hs \<noteq> []" "label_eq (label r) (index_max (map fst ?hs))"
  proof -
    from that(1) have ne: "map fst ?hs \<noteq> []" by simp
    then have "Max (set (map fst ?hs)) \<in> set (map fst ?hs)"
      by (intro Max_in) simp_all
    moreover from that(2) index_max_Val [OF ne] have "label r = Max (set (map fst ?hs))"
      by simp
    ultimately obtain w where "(label r, w) \<in> set ?hs" by auto
    with h [of "label r" w] show ?thesis by auto
  qed
  have 1: "\<not> Forecast r \<and> (label r, v) \<in> set ?fs \<longrightarrow> (label r, v) \<in> set ?hs"
    using hr fr ge by blast
  have 2: "Forecast r \<longrightarrow> (label r, v) \<in> set ?fs \<and> (label r, v) \<notin> set ?hs"
    using hr fr by blast
  have 3: "(label r, v) \<in> set ?hs \<and> (label r, v) \<in> set ?fs
           \<longleftrightarrow> (label r, v) \<in> set ?hs \<and> (\<forall>p\<in>set ?hs. fst p \<le> label r)"
  proof (cases "(label r, v) \<in> set ?hs")
    case True
    then have "?hs \<noteq> []" by auto
    with True hr fr last_year_iff [OF True] show ?thesis by blast
  next
    case False
    then show ?thesis by simp
  qed
  from 1 2 3 show ?thesis by blast
qed

theorem segments_of_traces_witness:
  "get_traces_for_series example_externals example_graph (series_of example_df) 0 False
     = Inr example_traces
   \<and> distinct (index (df (series_of example_df)))
   \<and> example_row 2019 False (Some 4) \<in> set (rows (df (series_of example_df)))
   \<and> cell_of (example_row 2019 False (Some 4)) (column_name (series_of example_df))
       = Some (NumCell 4)
   \<and> (2019, NumCell 4) \<in> set (historical_points (series_of example_df) example_traces)
   \<and> (2019, NumCell 4) \<in> set (forecast_points (series_of example_df) example_traces)
   \<and> list_all (\<lambda>p. fst p \<le> 2019) (historical_points (series_of example_df) example_traces)"
proof -
  have a: "distinct (index (df (series_of example_df)))"
    "example_row 2019 False (Some 4) \<in> set (rows (df (series_of example_df)))"
    "cell_of (example_row 2019 False (Some 4)) (column_name (series_of example_df))
       = Some (NumCell 4)"
    "label (example_row 2019 False (Some 4)) = 2019"
    by (simp_all add: series_of_def example_df_def example_row_def index_def cell_of_def)
  have b: "(2019, NumCell 4) \<in> set (historical_points (series_of example_df) example_traces)"
    "(2019, NumCell 4) \<in> set (forecast_points (series_of example_df) example_traces)"
    by (simp_all add: reading_defs example_traces_def example_trace_def series_of_def)
  from segments_of_traces [OF example_run a(1,2,3)] a b example_run show ?thesis
    by (simp add: list_all_iff)
qed

subsection \<open>Which traces are emitted\<close>

text \<open>
  C4, as the claim states it, fails: a frame without any \<^verbatim>\<open>Forecast\<close> row still
  gets a forecast trace, made of the row of the last historical year.
\<close>

theorem forecast_trace_without_forecast_rows:
  "map_sum id (map tr_name)
      (get_traces_for_series example_externals example_graph (series_of history_only_df) 0 False)
     = Inr [Some ''Emissions (enn.)'', Some ''Emissions'']
   \<and> filter Forecast (rows (df (series_of history_only_df))) = []"
  by (simp add: history_only_run history_only_traces_def example_trace_def)
     (simp add: example_defs)

text \<open>
  C4, amended. The result has at most two traces, the forecast trace (if any) before the
  historical trace (if any), and nothing else. The historical trace is there if and only
  if some row with \<^verbatim>\<open>Forecast\<close> false, from the start year on, has a value. The
  forecast trace is there if and only if the historical trace is there or some row with
  \<^verbatim>\<open>Forecast\<close> true has a value. The historical trace carries the trace name of the
  series, the forecast trace that name followed by \<^verbatim>\<open> (enn.)\<close>.
\<close>

theorem traces_emitted:
  assumes "get_traces_for_series env g s idx hm = Inr ts"
  shows "length ts \<le> 2
    \<and> ts = forecast_traces s ts @ historical_traces s ts
    \<and> length (historical_traces s ts) \<le> 1 \<and> length (forecast_traces s ts) \<le> 1
    \<and> (\<exists>start. start_year_of env g (df s) = Inr start \<and>
         (historical_traces s ts \<noteq> [] \<longleftrightarrow>
            (\<exists>r\<in>set (rows (df s)). \<not> Forecast r \<and> label_ge (label r) start
                 \<and> cell_of r (column_name s) \<noteq> None)))
    \<and> (forecast_traces s ts \<noteq> [] \<longleftrightarrow>
          historical_traces s ts \<noteq> []
          \<or> (\<exists>r\<in>set (rows (df s)). Forecast r \<and> cell_of r (column_name s) \<noteq> None))
    \<and> (\<forall>t\<in>set (historical_traces s ts). tr_name t = trace_name s)
    \<and> (\<forall>t\<in>set (forecast_traces s ts).
          tr_name t = Some (fmt_s (trace_name s) @ '' (enn.)''))"
proof -
  from traces_split [OF assms] obtain start hs fs where
    a: "start_year_of env g (df s) = Inr start"
    and h: "hist_series_of (df s) start (column_name s) = Inr hs"
    and f: "forecast_series_of (df s) hs (column_name s) = Inr fs"
    and t: "ts = forecast_traces s ts @ historical_traces s ts"
    and yf: "map tr_y (forecast_traces s ts) = (if fs = [] then [] else [fs])"
    and yh: "map tr_y (historical_traces s ts) = (if hs = [] then [] else [hs])"
    by blast
  from yh have lh: "length (historical_traces s ts) \<le> 1" and eh: "historical_traces s ts \<noteq> [] \<longleftrightarrow> hs \<noteq> []"
    by (auto split: if_splits)
  from yf have lf: "length (forecast_traces s ts) \<le> 1" and ef: "forecast_traces s ts \<noteq> [] \<longleftrightarrow> fs \<noteq> []"
    by (auto split: if_splits)
  from t have "length ts = length (forecast_traces s ts) + length (historical_traces s ts)"
    by (metis length_append)
  with lh lf have l: "length ts \<le> 2" by simp
  have 1: "historical_traces s ts \<noteq> [] \<longleftrightarrow>
            (\<exists>r\<in>set (rows (df s)). \<not> Forecast r \<and> label_ge (label r) start
                 \<and> cell_of r (column_name s) \<noteq> None)"
    using eh hist_nonempty_iff [OF h] by simp
  have 2: "forecast_traces s ts \<noteq> [] \<longleftrightarrow>
          historical_traces s ts \<noteq> []
          \<or> (\<exists>r\<in>set (rows (df s)). Forecast r \<and> cell_of r (column_name s) \<noteq> None)"
    using eh ef forecast_nonempty_iff [OF h f] by simp
  have 3: "\<forall>t\<in>set (historical_traces s ts). tr_name t = trace_name s"
    by (simp add: historical_traces_def)
  have 4: "\<forall>t\<in>set (forecast_traces s ts). tr_name t = Some (fmt_s (trace_name s) @ '' (enn.)'')"
    by (simp add: forecast_traces_def forecast_name_def)
  from l t lh lf a 1 2 3 4 show ?thesis by blast
qed

theorem traces_emitted_witness:
  "get_traces_for_series example_externals example_graph (series_of example_df) 0 False
     = Inr example_traces
   \<and> length example_traces \<le> 2
   \<and> example_traces = forecast_traces (series_of example_df) example_traces
                         @ historical_traces (series_of example_df) example_traces
   \<and> historical_traces (series_of example_df) example_traces \<noteq> []
   \<and> forecast_traces (series_of example_df) example_traces \<noteq> []
   \<and> list_all (\<lambda>t. tr_name t = Some ''Emissions (enn.)'')
         (forecast_traces (series_of example_df) example_traces)"
proof -
  have n: "historical_traces (series_of example_df) example_traces \<noteq> []"
    by (simp add: reading_defs example_traces_def example_trace_def series_of_def)
  have m: "fmt_s (trace_name (series_of example_df)) @ '' (enn.)'' = ''Emissions (enn.)''"
    by (simp add: series_of_def)
  from traces_emitted [OF example_run] n m example_run show ?thesis
    by (simp add: list_all_iff)
qed

subsection \<open>Stacking and filling\<close>

text \<open>
  C5. Every trace of the result has the fill \<^verbatim>\<open>tonexty\<close> when the graph is stacked
  and the index of the series is greater than 0, otherwise \<^verbatim>\<open>tozeroy\<close> when the graph
  is stacked or filled (and no fill at all when it is neither); its mode is
  \<^verbatim>\<open>none\<close> when the graph is filled and \<^verbatim>\<open>lines\<close> otherwise. When the graph is
  not filled, the line of the forecast trace is dashed and the line of the historical
  trace is not.
\<close>

theorem stacking_filling_rules:
  assumes "get_traces_for_series env g s idx hm = Inr ts"
  shows "(\<forall>t\<in>set ts.
            ta_fill (tr_attrs t) =
              (if stacked g \<and> idx > 0 then Some ''tonexty''
               else if stacked g \<or> fill g then Some ''tozeroy'' else None)
            \<and> ta_mode (tr_attrs t) = (if fill g then ''none'' else ''lines''))
       \<and> (\<not> fill g \<longrightarrow>
            (\<forall>t\<in>set (forecast_traces s ts). ln_dash (tr_line t) = Some ''dash'') \<and>
            (\<forall>t\<in>set (historical_traces s ts). ln_dash (tr_line t) = None))"
proof -
  note a = traces_attrs [OF assms]
  have 1: "\<forall>t\<in>set ts.
            ta_fill (tr_attrs t) =
              (if stacked g \<and> idx > 0 then Some ''tonexty''
               else if stacked g \<or> fill g then Some ''tozeroy'' else None)
            \<and> ta_mode (tr_attrs t) = (if fill g then ''none'' else ''lines'')"
    using a by (simp add: initial_trace_attrs_def)
  have 2: "\<not> fill g \<longrightarrow>
            (\<forall>t\<in>set (forecast_traces s ts). ln_dash (tr_line t) = Some ''dash'')"
    using a by (simp add: forecast_traces_def)
  have 3: "\<forall>t\<in>set (historical_traces s ts). ln_dash (tr_line t) = None"
    using a forecast_name_differs [of s] by (simp add: historical_traces_def)
  from 1 2 3 show ?thesis by blast
qed

theorem stacking_filling_rules_witness:
  "get_traces_for_series example_externals stacked_graph (series_of example_df) 1 True
     = Inr stacked_traces
   \<and> list_all (\<lambda>t. ta_fill (tr_attrs t) = Some ''tonexty'' \<and> ta_mode (tr_attrs t) = ''none'')
         stacked_traces
   \<and> get_traces_for_series example_externals example_graph (series_of example_df) 0 False
     = Inr example_traces
   \<and> \<not> fill example_graph
   \<and> list_all (\<lambda>t. ta_fill (tr_attrs t) = None \<and> ta_mode (tr_attrs t) = ''lines'')
         example_traces
   \<and> list_all (\<lambda>t. ln_dash (tr_line t) = Some ''dash'')
         (forecast_traces (series_of example_df) example_traces)
   \<and> list_all (\<lambda>t. ln_dash (tr_line t) = None)
         (historical_traces (series_of example_df) example_traces)"
proof -
  have g: "\<not> fill example_graph" "\<not> stacked example_graph"
    by (simp_all add: example_graph_def)
  have s: "fill stacked_graph" "stacked stacked_graph"
    by (simp_all add: stacked_graph_def example_graph_def)
  from stacking_filling_rules [OF stacked_run] s
  have 1: "list_all (\<lambda>t. ta_fill (tr_attrs t) = Some ''tonexty'' \<and> ta_mode (tr_attrs t) = ''none'')
         stacked_traces"
    by (simp add: list_all_iff)
  from stacking_filling_rules [OF example_run] g example_run stacked_run 1 show ?thesis
    by (simp add: list_all_iff)
qed

subsection \<open>The start year of the historical trace\<close>



subsection \<open>Colours\<close>

lemma get_color_unset:
  assumes "\<not> truthy_str (if forecast then forecast_color s else historical_color s)"
  shows "get_color env g s forecast = derived_color env g s forecast"
  using assms
  by (cases "forecast_color s"; cases "historical_color s"; cases forecast)
     (simp_all add: get_color_def)

text \<open>
  C2. When no colour is set for the requested segment, the colour of the trace is the
  base colour with a new luminance. With the luminance \<open>L\<close> of the base colour and the
  luminance change \<open>c\<close> of the series, the luminance becomes \<open>L * (1 + c)\<close> for
  \<open>c < 0\<close> and \<open>L + (1 - L) * c\<close> for \<open>c > 0\<close>, and stays \<open>L\<close> without a change;
  for a forecast the result \<open>L1\<close> of that becomes \<open>L1 + (1 - L1) * 0.3\<close>. The base
  colour is the historical colour for a forecast of a series that has one, and the colour
  of the sector otherwise.
\<close>

theorem luminance_blend:
  assumes "\<not> truthy_str (if forecast then forecast_color s else historical_color s)"
    and "(if forecast \<and> truthy_str (historical_color s) then historical_color s
          else GHG_MAIN_SECTOR_COLORS env (sector_name g)) = Some b"
    and "Color env b = Inr base"
  shows "get_color env g s forecast =
     hex env (base\<lparr>luminance :=
        (let L = luminance base;
             L1 = (case luminance_change s of
                     None \<Rightarrow> L
                   | Some c \<Rightarrow> if c < 0 then L * (1 + c)
                               else if c > 0 then L + (1 - L) * c else L)
         in if forecast then L1 + (1 - L1) * 0.3 else L1)\<rparr>)"
proof -
  have "derived_color env g s forecast =
     hex env (lighten_forecast forecast (change_luminance (luminance_change s) base))"
    using assms(2,3)
    by (auto simp: derived_color_def split: if_splits option.splits)
  moreover have "lighten_forecast forecast (change_luminance (luminance_change s) base) =
     base\<lparr>luminance :=
        (let L = luminance base;
             L1 = (case luminance_change s of
                     None \<Rightarrow> L
                   | Some c \<Rightarrow> if c < 0 then L * (1 + c)
                               else if c > 0 then L + (1 - L) * c else L)
         in if forecast then L1 + (1 - L1) * 0.3 else L1)\<rparr>"
    by (cases "luminance_change s")
       (auto simp: lighten_forecast_def change_luminance_def Let_def)
  ultimately show ?thesis
    using get_color_unset [OF assms(1)] by simp
qed

theorem luminance_blend_witness:
  "\<not> truthy_str (if True then forecast_color darker_series else historical_color darker_series)
   \<and> (if True \<and> truthy_str (historical_color darker_series) then historical_color darker_series
       else GHG_MAIN_SECTOR_COLORS example_externals (sector_name example_graph)) = Some ''#ff0000''
   \<and> Color example_externals ''#ff0000'' = Inr \<lparr>hue = 0, saturation = 1, luminance = 1 / 2\<rparr>
   \<and> get_color example_externals example_graph darker_series True
       = hex example_externals \<lparr>hue = 0, saturation = 1, luminance = 109 / 200\<rparr>"
proof -
  have a: "\<not> truthy_str (if True then forecast_color darker_series else historical_color darker_series)"
    "(if True \<and> truthy_str (historical_color darker_series) then historical_color darker_series
       else GHG_MAIN_SECTOR_COLORS example_externals (sector_name example_graph)) = Some ''#ff0000''"
    "Color example_externals ''#ff0000'' = Inr \<lparr>hue = 0, saturation = 1, luminance = 1 / 2\<rparr>"
    by (simp_all add: darker_series_def series_of_def example_externals_def example_graph_def)
  have "luminance_change darker_series = Some (- 3 / 10)"
    by (simp add: darker_series_def)
  with luminance_blend [OF a] a show ?thesis
    by (simp add: Let_def)
qed

text \<open>
  C6. On a graph whose sector name is a key of \<^verbatim>\<open>GHG_MAIN_SECTOR_COLORS\<close>, a series
  with neither a historical nor a forecast colour gets, for both segments, the colour
  derived from the sector's entry. A series with a historical colour and no forecast
  colour gets the historical colour itself for the historical segment, and for the
  forecast the colour derived from the historical colour, whatever the sector's entry.
\<close>

theorem base_color_choice:
  "(\<not> truthy_str (historical_color s) \<and> \<not> truthy_str (forecast_color s)
      \<and> GHG_MAIN_SECTOR_COLORS env (sector_name g) = Some c \<longrightarrow>
      get_color env g s forecast =
        (case Color env c of
           Inl e \<Rightarrow> Inl e
         | Inr base \<Rightarrow>
             hex env (lighten_forecast forecast (change_luminance (luminance_change s) base))))
   \<and> (historical_color s = Some h \<and> h \<noteq> [] \<and> \<not> truthy_str (forecast_color s) \<longrightarrow>
      get_color env g s False = Inr h \<and>
      get_color env g s True =
        (case Color env h of
           Inl e \<Rightarrow> Inl e
         | Inr base \<Rightarrow>
             hex env (lighten_forecast True (change_luminance (luminance_change s) base))))"
proof (intro conjI impI)
  assume a: "\<not> truthy_str (historical_color s) \<and> \<not> truthy_str (forecast_color s)
      \<and> GHG_MAIN_SECTOR_COLORS env (sector_name g) = Some c"
  then have "get_color env g s forecast = derived_color env g s forecast"
    by (intro get_color_unset) simp
  with a show "get_color env g s forecast =
        (case Color env c of
           Inl e \<Rightarrow> Inl e
         | Inr base \<Rightarrow>
             hex env (lighten_forecast forecast (change_luminance (luminance_change s) base)))"
    by (simp add: derived_color_def)
next
  assume "historical_color s = Some h \<and> h \<noteq> [] \<and> \<not> truthy_str (forecast_color s)"
  then show "get_color env g s False = Inr h"
    by (simp add: get_color_def)
next
  assume a: "historical_color s = Some h \<and> h \<noteq> [] \<and> \<not> truthy_str (forecast_color s)"
  then have "get_color env g s True = derived_color env g s True"
    by (intro get_color_unset) simp
  with a show "get_color env g s True =
        (case Color env h of
           Inl e \<Rightarrow> Inl e
         | Inr base \<Rightarrow>
             hex env (lighten_forecast True (change_luminance (luminance_change s) base)))"
    by (simp add: derived_color_def)
qed

theorem base_color_choice_witness:
  "\<not> truthy_str (historical_color (series_of example_df))
   \<and> \<not> truthy_str (forecast_color (series_of example_df))
   \<and> GHG_MAIN_SECTOR_COLORS example_externals (sector_name example_graph) = Some ''#ff0000''
   \<and> get_color example_externals example_graph (series_of example_df) False = Inr ''#light''
   \<and> get_color example_externals example_graph (series_of example_df) True = Inr ''#light''
   \<and> historical_color navy_series = Some ''#000080'' \<and> ''#000080'' \<noteq> []
   \<and> \<not> truthy_str (forecast_color navy_series)
   \<and> get_color example_externals example_graph navy_series False = Inr ''#000080''
   \<and> get_color example_externals example_graph navy_series True = Inr ''#dark''"
proof -
  have a: "\<not> truthy_str (historical_color (series_of example_df))
      \<and> \<not> truthy_str (forecast_color (series_of example_df))
      \<and> GHG_MAIN_SECTOR_COLORS example_externals (sector_name example_graph) = Some ''#ff0000''"
    by (simp add: series_of_def example_externals_def example_graph_def)
  have b: "historical_color navy_series = Some ''#000080'' \<and> ''#000080'' \<noteq> []
      \<and> \<not> truthy_str (forecast_color navy_series)"
    by (simp add: navy_series_def series_of_def)
  have l: "luminance_change (series_of example_df) = None" "luminance_change navy_series = None"
    by (simp_all add: navy_series_def series_of_def)
  note t1 = base_color_choice [of "series_of example_df" example_externals example_graph
    "''#ff0000''" False "''x''", THEN conjunct1, rule_format, OF a]
  note t2 = base_color_choice [of "series_of example_df" example_externals example_graph
    "''#ff0000''" True "''x''", THEN conjunct1, rule_format, OF a]
  note t3 = base_color_choice [of navy_series example_externals example_graph
    "''#ff0000''" True "''#000080''", THEN conjunct2, rule_format, OF b]
  have 1: "get_color example_externals example_graph (series_of example_df) False = Inr ''#light''"
    using t1 l by (simp add: example_externals_def lighten_forecast_def change_luminance_def)
  have 2: "get_color example_externals example_graph (series_of example_df) True = Inr ''#light''"
    using t2 l by (simp add: example_externals_def lighten_forecast_def change_luminance_def)
  have 3: "get_color example_externals example_graph navy_series False = Inr ''#000080''"
    "get_color example_externals example_graph navy_series True = Inr ''#dark''"
    using t3 l by (simp_all add: example_externals_def lighten_forecast_def change_luminance_def)
  from a b 1 2 3 show ?thesis by blast
qed

subsection \<open>The years of a graph\<close>

lemma add_series_Inr:
  assumes "add_series g a = Inr g'"
  shows "\<exists>s. make_series a = Inr s \<and> series_list g' = series_list g @ [s]
     \<and> min_year g' = Some (case min_year g of
           None \<Rightarrow> index_min (index (df s))
         | Some m \<Rightarrow> if stat_less (index_min (index (df s))) m
                      then index_min (index (df s)) else m)
     \<and> max_year g' = Some (case max_year g of
           None \<Rightarrow> index_max (index (df s))
         | Some m \<Rightarrow> if stat_less m (index_max (index (df s)))
                      then index_max (index (df s)) else m)
     \<and> forecast_start_year g' = Some (case forecast_start_year g of
           None \<Rightarrow> fstart_of (df s)
         | Some f \<Rightarrow> if stat_less (fstart_of (df s)) f then fstart_of (df s) else f)"
  using assms
  by (auto simp: add_series_def Let_def split: sum.splits option.splits)

lemma add_all_snoc:
  "add_all g (as @ [a]) =
     (case add_all g as of Inl e \<Rightarrow> Inl e | Inr g' \<Rightarrow> add_series g' a)"
  by (induction as arbitrary: g) (auto split: sum.splits)

lemma running_min:
  assumes "ss = [] \<longrightarrow> cur = None" "ss \<noteq> [] \<longrightarrow> cur = Some (Val (Min (f ` set ss)))"
  shows "(case cur of None \<Rightarrow> Val (f s)
          | Some m \<Rightarrow> if stat_less (Val (f s)) m then Val (f s) else m)
       = Val (Min (f ` set (ss @ [s])))"
proof (cases "ss = []")
  case True
  with assms show ?thesis by simp
next
  case False
  define M where "M = Min (f ` set ss)"
  from False have "Min (f ` set (ss @ [s])) = min (f s) M"
    by (simp add: M_def)
  moreover from False assms have "cur = Some (Val M)" by (simp add: M_def)
  ultimately show ?thesis by (simp add: min_def)
qed

lemma running_max:
  assumes "ss = [] \<longrightarrow> cur = None" "ss \<noteq> [] \<longrightarrow> cur = Some (Val (Max (f ` set ss)))"
  shows "(case cur of None \<Rightarrow> Val (f s)
          | Some m \<Rightarrow> if stat_less m (Val (f s)) then Val (f s) else m)
       = Val (Max (f ` set (ss @ [s])))"
proof (cases "ss = []")
  case True
  with assms show ?thesis by simp
next
  case False
  define M where "M = Max (f ` set ss)"
  from False have "Max (f ` set (ss @ [s])) = max (f s) M"
    by (simp add: M_def)
  moreover from False assms have "cur = Some (Val M)" by (simp add: M_def)
  ultimately show ?thesis by (simp add: max_def)
qed

lemma fstart_of_Val:
  assumes "\<exists>r\<in>set (rows d). \<not> Forecast r"
  shows "fstart_of d = Val (Max (label ` {r \<in> set (rows d). \<not> Forecast r}))"
proof -
  from assms have "map label (filter (\<lambda>r. \<not> Forecast r) (rows d)) \<noteq> []"
    by (auto simp: filter_empty_conv)
  from index_max_Val [OF this] show ?thesis
    by (simp add: fstart_of_def)
qed

lemma add_all_series:
  assumes "add_all g args = Inr g'"
  shows "map Inr (series_list g') = map Inr (series_list g) @ map make_series args"
  using assms
proof (induction args arbitrary: g' rule: rev_induct)
  case Nil
  then show ?case by simp
next
  case (snoc a as)
  from snoc.prems obtain g1 where g1: "add_all g as = Inr g1" "add_series g1 a = Inr g'"
    by (auto simp: add_all_snoc split: sum.splits)
  from add_series_Inr [OF g1(2)] obtain s where
    "make_series a = Inr s" "series_list g' = series_list g1 @ [s]" by blast
  with snoc.IH [OF g1(1)] show ?case by simp
qed

lemma add_all_stats:
  assumes run: "add_all g0 args = Inr g"
    and fresh: "series_list g0 = []" "min_year g0 = None" "max_year g0 = None"
      "forecast_start_year g0 = None"
  shows "(series_list g = [] \<longrightarrow>
            min_year g = None \<and> max_year g = None \<and> forecast_start_year g = None)
     \<and> (series_list g \<noteq> [] \<and> (\<forall>s\<in>set (series_list g). index (df s) \<noteq> []) \<longrightarrow>
            min_year g = Some (Val (Min ((\<lambda>s. Min (set (index (df s)))) ` set (series_list g))))
          \<and> max_year g = Some (Val (Max ((\<lambda>s. Max (set (index (df s)))) ` set (series_list g)))))
     \<and> (series_list g \<noteq> [] \<and> (\<forall>s\<in>set (series_list g). \<exists>r\<in>set (rows (df s)). \<not> Forecast r) \<longrightarrow>
            forecast_start_year g =
              Some (Val (Min ((\<lambda>s. Max (label ` {r \<in> set (rows (df s)). \<not> Forecast r}))
                                ` set (series_list g)))))"
  using run
proof (induction args arbitrary: g rule: rev_induct)
  case Nil
  with fresh show ?case by simp
next
  case (snoc a as)
  let ?lo = "\<lambda>s. Min (set (index (df s)))"
  let ?hi = "\<lambda>s. Max (set (index (df s)))"
  let ?fs = "\<lambda>s. Max (label ` {r \<in> set (rows (df s)). \<not> Forecast r})"
  from snoc.prems obtain g1 where g1: "add_all g0 as = Inr g1" "add_series g1 a = Inr g"
    by (auto simp: add_all_snoc split: sum.splits)
  note IH = snoc.IH [OF g1(1)]
  from add_series_Inr [OF g1(2)] obtain s where
    sl: "series_list g = series_list g1 @ [s]"
    and mn: "min_year g = Some (case min_year g1 of
           None \<Rightarrow> index_min (index (df s))
         | Some m \<Rightarrow> if stat_less (index_min (index (df s))) m
                      then index_min (index (df s)) else m)"
    and mx: "max_year g = Some (case max_year g1 of
           None \<Rightarrow> index_max (index (df s))
         | Some m \<Rightarrow> if stat_less m (index_max (index (df s)))
                      then index_max (index (df s)) else m)"
    and fy: "forecast_start_year g = Some (case forecast_start_year g1 of
           None \<Rightarrow> fstart_of (df s)
         | Some f \<Rightarrow> if stat_less (fstart_of (df s)) f then fstart_of (df s) else f)"
    by blast
  have A: "min_year g = Some (Val (Min (?lo ` set (series_list g))))
         \<and> max_year g = Some (Val (Max (?hi ` set (series_list g))))"
    if ne: "\<forall>s\<in>set (series_list g). index (df s) \<noteq> []"
  proof -
    from ne sl have ne1: "\<forall>s\<in>set (series_list g1). index (df s) \<noteq> []"
      and nes: "index (df s) \<noteq> []" by simp_all
    from IH ne1 have
      c1: "series_list g1 = [] \<longrightarrow> min_year g1 = None"
          "series_list g1 \<noteq> [] \<longrightarrow> min_year g1 = Some (Val (Min (?lo ` set (series_list g1))))"
      and c2: "series_list g1 = [] \<longrightarrow> max_year g1 = None"
          "series_list g1 \<noteq> [] \<longrightarrow> max_year g1 = Some (Val (Max (?hi ` set (series_list g1))))"
      by blast+
    note e1 = index_min_Val [OF nes] and e2 = index_max_Val [OF nes]
    from mn [unfolded e1] running_min [OF c1, of s]
    have "min_year g = Some (Val (Min (?lo ` set (series_list g1 @ [s]))))"
      by (simp only:)
    with sl have 1: "min_year g = Some (Val (Min (?lo ` set (series_list g))))"
      by (simp only:)
    from mx [unfolded e2] running_max [OF c2, of s]
    have "max_year g = Some (Val (Max (?hi ` set (series_list g1 @ [s]))))"
      by (simp only:)
    with sl have 2: "max_year g = Some (Val (Max (?hi ` set (series_list g))))"
      by (simp only:)
    from 1 2 show ?thesis by simp
  qed
  have B: "forecast_start_year g = Some (Val (Min (?fs ` set (series_list g))))"
    if hr: "\<forall>s\<in>set (series_list g). \<exists>r\<in>set (rows (df s)). \<not> Forecast r"
  proof -
    from hr sl have hr1: "\<forall>s\<in>set (series_list g1). \<exists>r\<in>set (rows (df s)). \<not> Forecast r"
      and hrs: "\<exists>r\<in>set (rows (df s)). \<not> Forecast r" by simp_all
    from IH hr1 have
      c: "series_list g1 = [] \<longrightarrow> forecast_start_year g1 = None"
         "series_list g1 \<noteq> [] \<longrightarrow>
            forecast_start_year g1 = Some (Val (Min (?fs ` set (series_list g1))))"
      by blast+
    note e = fstart_of_Val [OF hrs]
    from fy [unfolded e] running_min [OF c, of s]
    have "forecast_start_year g = Some (Val (Min (?fs ` set (series_list g1 @ [s]))))"
      by (simp only:)
    with sl show ?thesis by (simp only:)
  qed
  from sl A B show ?case by simp
qed

lemma example_graph_run:
  "add_all (graph_post_init example_graph) example_args = Inr two_series_graph"
  by (simp add: example_args_def two_series_graph_def graph_post_init_def add_series_def
        post_init_def post_init_frame_def example_graph_def series_of_def example_df_def
        earlier_df_def example_row_def index_def fstart_of_def Let_def)

lemma order_runs:
  "add_all (graph_post_init example_graph) [args_of example_df, args_of forecast_only_df]
     = Inr (example_graph\<lparr>series_list := [series_of example_df, series_of forecast_only_df],
              min_year := Some (Val 2018), max_year := Some (Val 2021),
              forecast_start_year := Some (Val 2019)\<rparr>)"
  "add_all (graph_post_init example_graph) [args_of forecast_only_df, args_of example_df]
     = Inr (example_graph\<lparr>series_list := [series_of forecast_only_df, series_of example_df],
              min_year := Some (Val 2018), max_year := Some (Val 2021),
              forecast_start_year := Some NaN\<rparr>)"
  "add_all (graph_post_init example_graph) [args_of example_df, args_of empty_df]
     = Inr (example_graph\<lparr>series_list := [series_of example_df, series_of empty_df],
              min_year := Some (Val 2018), max_year := Some (Val 2020),
              forecast_start_year := Some (Val 2019)\<rparr>)"
  "add_all (graph_post_init example_graph) [args_of empty_df, args_of example_df]
     = Inr (example_graph\<lparr>series_list := [series_of empty_df, series_of example_df],
              min_year := Some NaN, max_year := Some NaN,
              forecast_start_year := Some NaN\<rparr>)"
  by (simp_all add: graph_post_init_def add_series_def args_of_def
        post_init_def post_init_frame_def example_graph_def series_of_def example_df_def
        forecast_only_df_def empty_df_def example_row_def index_def fstart_of_def Let_def)

text \<open>
  C9, as the claim states it, fails: the years of a graph depend on the order of the calls,
  which no minimum or maximum over the added series does. A frame without a row with
  \<^verbatim>\<open>Forecast\<close> false gives the forecast start year NaN when it is added first and
  leaves it alone when it is added second; an empty frame does the same to the smallest
  year.
\<close>

theorem years_depend_on_order:
  "map_sum id forecast_start_year
      (add_all (graph_post_init example_graph) [args_of example_df, args_of forecast_only_df])
     = Inr (Some (Val 2019))
   \<and> map_sum id forecast_start_year
      (add_all (graph_post_init example_graph) [args_of forecast_only_df, args_of example_df])
     = Inr (Some NaN)
   \<and> map_sum id min_year
      (add_all (graph_post_init example_graph) [args_of example_df, args_of empty_df])
     = Inr (Some (Val 2018))
   \<and> map_sum id min_year
      (add_all (graph_post_init example_graph) [args_of empty_df, args_of example_df])
     = Inr (Some NaN)"
  unfolding order_runs by simp

text \<open>
  C9, amended. After a sequence of at least one successful call of \<^verbatim>\<open>add_series\<close> on a
  new graph, the series of the graph are the ones constructed from the arguments, in order.
  If no frame is empty, \<^verbatim>\<open>min_year\<close> is the least of the series' smallest index years
  and \<^verbatim>\<open>max_year\<close> the greatest of their largest index years; if moreover every frame
  has a row with \<^verbatim>\<open>Forecast\<close> false, \<^verbatim>\<open>forecast_start_year\<close> is the least of the
  series' largest index years among those rows.
\<close>

theorem graph_years:
  assumes "add_all (graph_post_init g0) args = Inr g"
    and "args \<noteq> []"
    and "\<forall>s\<in>set (series_list g). index (df s) \<noteq> []"
  shows "map Inr (series_list g) = map make_series args
     \<and> min_year g = Some (Val (Min ((\<lambda>s. Min (set (index (df s)))) ` set (series_list g))))
     \<and> max_year g = Some (Val (Max ((\<lambda>s. Max (set (index (df s)))) ` set (series_list g))))
     \<and> ((\<forall>s\<in>set (series_list g). \<exists>r\<in>set (rows (df s)). \<not> Forecast r) \<longrightarrow>
          forecast_start_year g =
            Some (Val (Min ((\<lambda>s. Max (label ` {r \<in> set (rows (df s)). \<not> Forecast r}))
                              ` set (series_list g)))))"
proof -
  have fresh: "series_list (graph_post_init g0) = []" "min_year (graph_post_init g0) = None"
    "max_year (graph_post_init g0) = None" "forecast_start_year (graph_post_init g0) = None"
    by (simp_all add: graph_post_init_def)
  from add_all_series [OF assms(1)] fresh(1)
  have sl: "map Inr (series_list g) = map make_series args" by simp
  with assms(2) have ne: "series_list g \<noteq> []" by (metis map_is_Nil_conv)
  from add_all_stats [OF assms(1) fresh] ne assms(3) sl show ?thesis by blast
qed

theorem graph_years_witness:
  "add_all (graph_post_init example_graph) example_args = Inr two_series_graph
   \<and> example_args \<noteq> []
   \<and> list_all (\<lambda>s. index (df s) \<noteq> []) (series_list two_series_graph)
   \<and> list_all (\<lambda>s. list_ex (\<lambda>r. \<not> Forecast r) (rows (df s))) (series_list two_series_graph)
   \<and> min_year two_series_graph = Some (Val 2015)
   \<and> Min ((\<lambda>s. Min (set (index (df s)))) ` set (series_list two_series_graph)) = 2015
   \<and> max_year two_series_graph = Some (Val 2020)
   \<and> Max ((\<lambda>s. Max (set (index (df s)))) ` set (series_list two_series_graph)) = 2020
   \<and> forecast_start_year two_series_graph = Some (Val 2016)
   \<and> Min ((\<lambda>s. Max (label ` {r \<in> set (rows (df s)). \<not> Forecast r}))
            ` set (series_list two_series_graph)) = 2016"
proof -
  have a: "example_args \<noteq> []" by (simp add: example_args_def)
  have b: "list_all (\<lambda>s. index (df s) \<noteq> []) (series_list two_series_graph)"
    by (simp add: two_series_graph_def series_of_def example_df_def earlier_df_def index_def)
  have c: "list_all (\<lambda>s. list_ex (\<lambda>r. \<not> Forecast r) (rows (df s))) (series_list two_series_graph)"
    by (simp add: two_series_graph_def series_of_def example_df_def earlier_df_def example_row_def)
  have v: "min_year two_series_graph = Some (Val 2015)"
    "max_year two_series_graph = Some (Val 2020)"
    "forecast_start_year two_series_graph = Some (Val 2016)"
    by (simp_all add: two_series_graph_def)
  from b have b': "\<forall>s\<in>set (series_list two_series_graph). index (df s) \<noteq> []"
    by (simp add: list_all_iff)
  from c have c': "\<forall>s\<in>set (series_list two_series_graph). \<exists>r\<in>set (rows (df s)). \<not> Forecast r"
    by (simp add: list_all_iff list_ex_iff)
  from graph_years [OF example_graph_run a b'] c' v
  have "Min ((\<lambda>s. Min (set (index (df s)))) ` set (series_list two_series_graph)) = 2015"
    "Max ((\<lambda>s. Max (set (index (df s)))) ` set (series_list two_series_graph)) = 2020"
    "Min ((\<lambda>s. Max (label ` {r \<in> set (rows (df s)). \<not> Forecast r}))
            ` set (series_list two_series_graph)) = 2016"
    by simp_all
  with example_graph_run a b c v show ?thesis by blast
qed

subsection \<open>The ticks of the x axis\<close>

lemma strict_sorted_le_last:
  fixes xs :: "int list"
  shows "sorted_wrt (<) xs \<Longrightarrow> x \<in> set xs \<Longrightarrow> x \<le> last xs"
proof (induction xs)
  case Nil
  then show ?case by simp
next
  case (Cons a xs)
  show ?case
  proof (cases "xs = []")
    case True
    with Cons.prems show ?thesis by simp
  next
    case False
    then have l: "last xs \<in> set xs" by simp
    from Cons.prems(1) have "\<forall>y\<in>set xs. a < y" "sorted_wrt (<) xs" by simp_all
    with Cons.IH Cons.prems(2) l False show ?thesis by fastforce
  qed
qed

lemma strict_sorted_last_Max:
  fixes xs :: "int list"
  assumes "sorted_wrt (<) xs" "xs \<noteq> []"
  shows "last xs = Max (set xs)"
proof -
  have "\<forall>x\<in>set xs. x \<le> last xs"
    using assms(1) by (simp add: strict_sorted_le_last)
  moreover have "last xs \<in> set xs" using assms(2) by simp
  ultimately show ?thesis by (intro Max_eqI [symmetric]) auto
qed

lemma tick_loop_step:
  "tick_loop fsy b (y # ys) (tv, lbs) =
     (if \<not> year_differs y fsy \<or> tv = [] \<or> y = b \<or> (y mod 5 = 0 \<and> 3 \<le> y - last tv)
      then tick_loop fsy b ys (tv @ [y], lbs @ [str_int y])
      else tick_loop fsy b ys (tv, lbs))"
  by auto

lemma tick_loop_props:
  assumes "sorted_wrt (<) (tv @ ys)" "lbs = map str_int tv"
    and "tick_loop fsy b ys (tv, lbs) = (T, L)"
  shows "L = map str_int T \<and> sorted_wrt (<) T
     \<and> (\<exists>ks. T = tv @ ks \<and> set ks \<subseteq> set ys)
     \<and> (\<forall>y\<in>set ys. y \<in> set T \<longleftrightarrow>
           (\<not> year_differs y fsy \<or> {t \<in> set T. t < y} = {} \<or> y = b
            \<or> (y mod 5 = 0 \<and> 3 \<le> y - Max {t \<in> set T. t < y})))"
  using assms
proof (induction ys arbitrary: tv lbs)
  case Nil
  then show ?case by auto
next
  case (Cons y ys)
  let ?app = "\<not> year_differs y fsy \<or> tv = [] \<or> y = b \<or> (y mod 5 = 0 \<and> 3 \<le> y - last tv)"
  let ?tv' = "if ?app then tv @ [y] else tv"
  let ?lbs' = "if ?app then lbs @ [str_int y] else lbs"
  from Cons.prems(3) have run: "tick_loop fsy b ys (?tv', ?lbs') = (T, L)"
    by (simp only: tick_loop_step split: if_splits) auto
  from Cons.prems(1) have sorted': "sorted_wrt (<) (?tv' @ ys)"
    by (auto simp: sorted_wrt_append)
  from Cons.prems(2) have labels': "?lbs' = map str_int ?tv'" by simp
  note IH = Cons.IH [OF sorted' labels' run]
  from IH obtain ks where ks: "T = ?tv' @ ks" "set ks \<subseteq> set ys" by blast
  from Cons.prems(1) have below: "\<forall>t\<in>set tv. t < y" and above: "\<forall>z\<in>set ys. y < z"
    and stv: "sorted_wrt (<) tv"
    by (auto simp: sorted_wrt_append)
  from above ks(2) have kabove: "\<forall>z\<in>set ks. y < z" by blast
  have before: "{t \<in> set T. t < y} = set tv"
    using ks(1) below kabove by (auto split: if_splits)
  have yin: "y \<in> set T \<longleftrightarrow> ?app"
    using ks(1) below kabove by (auto split: if_splits)
  have "last tv = Max (set tv)" if "tv \<noteq> []"
    using strict_sorted_last_Max [OF stv that] .
  then have head: "y \<in> set T \<longleftrightarrow>
           (\<not> year_differs y fsy \<or> {t \<in> set T. t < y} = {} \<or> y = b
            \<or> (y mod 5 = 0 \<and> 3 \<le> y - Max {t \<in> set T. t < y}))"
    unfolding yin before by auto
  have ext: "\<exists>ks. T = tv @ ks \<and> set ks \<subseteq> set (y # ys)"
  proof (cases ?app)
    case True
    with ks have "T = tv @ (y # ks)" "set (y # ks) \<subseteq> set (y # ys)" by auto
    then show ?thesis by blast
  next
    case False
    with ks have "T = tv @ ks" "set ks \<subseteq> set (y # ys)" by auto
    then show ?thesis by blast
  qed
  from IH head ext show ?case by simp
qed

lemma wrap_int64_id:
  assumes "- (2 ^ 63) \<le> x" "x < 2 ^ 63"
  shows "wrap_int64 x = x"
proof -
  from assms have "0 \<le> x + 2 ^ 63" "x + 2 ^ 63 < 2 ^ 64" by simp_all
  then have "(x + 2 ^ 63) mod 2 ^ 64 = x + 2 ^ 63" by (rule mod_pos_pos_trivial)
  then show ?thesis by (simp add: wrap_int64_def)
qed

lemma get_ticks_Inr:
  assumes "get_ticks g = Inr (tv, lbs)"
  shows "\<exists>a b. min_year g = Some (Val a) \<and> max_year g = Some (Val b)
           \<and> tick_loop (forecast_start_year g) b (py_range a (wrap_int64 (b + 1))) ([], [])
               = (tv, lbs)"
  using assms
  by (auto simp: get_ticks_def split: option.splits stat.splits)

lemma ticks_of_range:
  assumes run: "tick_loop fsy b [a..b] ([], []) = (tv, lbs)" and ab: "a \<le> b"
  shows "tv \<noteq> [] \<and> hd tv = a \<and> b \<in> set tv
     \<and> (\<forall>f. fsy = Some (Val f) \<and> a \<le> f \<and> f \<le> b \<longrightarrow> f \<in> set tv)
     \<and> (\<forall>y. a < y \<and> y < b \<and> year_differs y fsy \<longrightarrow>
           (y \<in> set tv \<longleftrightarrow> y mod 5 = 0 \<and> 3 \<le> y - Max {t \<in> set tv. t < y}))
     \<and> lbs = map str_int tv \<and> sorted_wrt (<) tv \<and> set tv \<subseteq> {a..b}"
proof -
  have s: "sorted_wrt (<) ([] @ [a..b])"
    by (simp add: strict_sorted_iff)
  note P = tick_loop_props [OF s _ run, simplified]
  from P have lab: "lbs = map str_int tv" and srt: "sorted_wrt (<) tv"
    and sub: "set tv \<subseteq> {a..b}" by auto
  from P have mem: "\<And>y. a \<le> y \<Longrightarrow> y \<le> b \<Longrightarrow> y \<in> set tv \<longleftrightarrow>
           (\<not> year_differs y fsy \<or> {t \<in> set tv. t < y} = {} \<or> y = b
            \<or> (y mod 5 = 0 \<and> 3 \<le> y - Max {t \<in> set tv. t < y}))"
    by auto
  from sub have "{t \<in> set tv. t < a} = {}" by auto
  with mem [of a] ab have ain: "a \<in> set tv" by simp
  then have ne: "tv \<noteq> []" by auto
  have hd: "hd tv = a"
  proof -
    from srt ne have "\<forall>x\<in>set tv. hd tv \<le> x"
      by (cases tv) (auto simp: less_imp_le)
    with ain have "hd tv \<le> a" by blast
    moreover from sub ne have "a \<le> hd tv" by (cases tv) auto
    ultimately show ?thesis by simp
  qed
  from mem [of b] ab have bin: "b \<in> set tv" by simp
  have fin: "\<forall>f. fsy = Some (Val f) \<and> a \<le> f \<and> f \<le> b \<longrightarrow> f \<in> set tv"
    using mem by auto
  have other: "\<forall>y. a < y \<and> y < b \<and> year_differs y fsy \<longrightarrow>
           (y \<in> set tv \<longleftrightarrow> y mod 5 = 0 \<and> 3 \<le> y - Max {t \<in> set tv. t < y})"
  proof (intro allI impI)
    fix y assume y: "a < y \<and> y < b \<and> year_differs y fsy"
    with ain have "{t \<in> set tv. t < y} \<noteq> {}" by auto
    with mem [of y] y show "y \<in> set tv \<longleftrightarrow> y mod 5 = 0 \<and> 3 \<le> y - Max {t \<in> set tv. t < y}"
      by auto
  qed
  from ne hd bin fin other lab srt sub show ?thesis by blast
qed

lemma frame_stats:
  "(index_min (index d) = NaN \<and> index_max (index d) = NaN \<and> fstart_of d = NaN)
   \<or> (\<exists>l h. index_min (index d) = Val l \<and> index_max (index d) = Val h \<and> l \<le> h
          \<and> (fstart_of d = NaN \<or> (\<exists>f. fstart_of d = Val f \<and> l \<le> f \<and> f \<le> h)))"
proof (cases "rows d = []")
  case True
  then show ?thesis by (simp add: index_def fstart_of_def)
next
  case False
  then have ne: "index d \<noteq> []" by (simp add: index_def)
  let ?S = "set (index d)"
  have lo: "index_min (index d) = Val (Min ?S)" and hi: "index_max (index d) = Val (Max ?S)"
    using index_min_Val [OF ne] index_max_Val [OF ne] by simp_all
  from ne have lh: "Min ?S \<le> Max ?S" by simp
  have "fstart_of d = NaN \<or> (\<exists>f. fstart_of d = Val f \<and> Min ?S \<le> f \<and> f \<le> Max ?S)"
  proof (cases "\<exists>r\<in>set (rows d). \<not> Forecast r")
    case False
    then have "filter (\<lambda>r. \<not> Forecast r) (rows d) = []" by (auto simp: filter_empty_conv)
    then show ?thesis by (simp add: fstart_of_def)
  next
    case True
    let ?H = "label ` {r \<in> set (rows d). \<not> Forecast r}"
    from True have hne: "?H \<noteq> {}" by auto
    have fin: "finite ?H" by simp
    from Max_in [OF fin hne] have "Max ?H \<in> ?S" by (auto simp: index_def)
    then have "Min ?S \<le> Max ?H" "Max ?H \<le> Max ?S" by simp_all
    with fstart_of_Val [OF True] show ?thesis by simp
  qed
  with lo hi lh show ?thesis by blast
qed

lemma years_consistent_step:
  assumes "years_consistent mn mx fy"
    and "(lo = NaN \<and> hi = NaN \<and> fs = NaN)
       \<or> (\<exists>l h. lo = Val l \<and> hi = Val h \<and> l \<le> h
            \<and> (fs = NaN \<or> (\<exists>f. fs = Val f \<and> l \<le> f \<and> f \<le> h)))"
  shows "years_consistent
           (Some (case mn of None \<Rightarrow> lo | Some m \<Rightarrow> if stat_less lo m then lo else m))
           (Some (case mx of None \<Rightarrow> hi | Some m \<Rightarrow> if stat_less m hi then hi else m))
           (Some (case fy of None \<Rightarrow> fs | Some f \<Rightarrow> if stat_less fs f then fs else f))"
  using assms
  by (cases "(mn, mx, fy)" rule: years_consistent.cases) auto

lemma years_inv_add_series:
  assumes "years_inv g" "add_series g a = Inr g'"
  shows "years_inv g'"
proof -
  from add_series_Inr [OF assms(2)] obtain s :: PredictionGraphSeries where
    "min_year g' = Some (case min_year g of
           None \<Rightarrow> index_min (index (df s))
         | Some m \<Rightarrow> if stat_less (index_min (index (df s))) m
                      then index_min (index (df s)) else m)"
    "max_year g' = Some (case max_year g of
           None \<Rightarrow> index_max (index (df s))
         | Some m \<Rightarrow> if stat_less m (index_max (index (df s)))
                      then index_max (index (df s)) else m)"
    "forecast_start_year g' = Some (case forecast_start_year g of
           None \<Rightarrow> fstart_of (df s)
         | Some f \<Rightarrow> if stat_less (fstart_of (df s)) f then fstart_of (df s) else f)"
    by blast
  with years_consistent_step [OF assms(1) [unfolded years_inv_def] frame_stats [of "df s"]]
  show ?thesis by (simp only: years_inv_def)
qed

lemma years_inv_add_all:
  "years_inv g \<Longrightarrow> add_all g args = Inr g' \<Longrightarrow> years_inv g'"
proof (induction args arbitrary: g)
  case Nil
  then show ?case by simp
next
  case (Cons a as)
  from Cons.prems(2) obtain g1 where "add_series g a = Inr g1" "add_all g1 as = Inr g'"
    by (auto split: sum.splits)
  with Cons.IH years_inv_add_series [OF Cons.prems(1)] show ?case by blast
qed

lemma years_inv_ranges:
  assumes "years_inv g" "min_year g = Some (Val a)" "max_year g = Some (Val b)"
  shows "a \<le> b \<and> (\<forall>f. forecast_start_year g = Some (Val f) \<longrightarrow> a \<le> f \<and> f \<le> b)"
  using assms
  by (cases "(min_year g, max_year g, forecast_start_year g)" rule: years_consistent.cases)
     (auto simp: years_inv_def)

lemma long_graph_run:
  "add_all (graph_post_init example_graph)
       [(long_df, Some ''Emissions'', StrName ''Emissions'', None, None, None)]
     = Inr long_graph"
  by (simp add: long_graph_def graph_post_init_def add_series_def
        post_init_def post_init_frame_def example_graph_def series_of_def long_df_def
        example_row_def index_def fstart_of_def Let_def)

lemma long_graph_ticks:
  "get_ticks long_graph = Inr (long_ticks, long_labels)"
  by (simp add: get_ticks_def long_graph_def long_ticks_def long_labels_def wrap_int64_def
        py_range_def upto_rec1 str_int_def str_nat.simps)

lemma forecast_only_run:
  "add_all (graph_post_init example_graph) [args_of forecast_only_df] = Inr forecast_only_graph"
  by (simp add: forecast_only_graph_def graph_post_init_def add_series_def args_of_def
        post_init_def post_init_frame_def example_graph_def series_of_def
        forecast_only_df_def example_row_def index_def fstart_of_def Let_def)

lemma last_year_run:
  "add_all (graph_post_init example_graph) [args_of last_year_df] = Inr last_year_graph"
  by (simp add: last_year_graph_def graph_post_init_def add_series_def args_of_def
        post_init_def post_init_frame_def example_graph_def series_of_def
        last_year_df_def example_row_def index_def fstart_of_def Let_def)

text \<open>
  C3, as the claim states it, fails on two graphs with one series each. When the series has
  no row with \<^verbatim>\<open>Forecast\<close> false, \<^verbatim>\<open>forecast_start_year\<close> is NaN and no tick. When
  \<^verbatim>\<open>max_year\<close> is the largest 64-bit integer, \<^verbatim>\<open>self.max_year + 1\<close> wraps around,
  the range is empty and there is no tick at all.
\<close>

theorem ticks_without_forecast_start:
  "add_all (graph_post_init example_graph) [args_of forecast_only_df] = Inr forecast_only_graph
   \<and> forecast_start_year forecast_only_graph = Some NaN
   \<and> get_ticks forecast_only_graph = Inr ([2020, 2021], [''2020'', ''2021''])
   \<and> add_all (graph_post_init example_graph) [args_of last_year_df] = Inr last_year_graph
   \<and> max_year last_year_graph = Some (Val 9223372036854775807)
   \<and> get_ticks last_year_graph = Inr ([], [])"
  unfolding forecast_only_run last_year_run
  by (simp add: get_ticks_def forecast_only_graph_def last_year_graph_def wrap_int64_def
        py_range_def upto_rec1 str_int_def str_nat.simps)

text \<open>
  C3, amended. Take a graph built by calls of \<^verbatim>\<open>add_series\<close> on which the tick loop of
  \<^verbatim>\<open>get_figure\<close> runs, with \<^verbatim>\<open>max_year\<close> a 64-bit integer below the largest one.
  The graph has a series, \<^verbatim>\<open>min_year\<close> is the first tick, \<^verbatim>\<open>max_year\<close> is a tick,
  and \<^verbatim>\<open>forecast_start_year\<close> is a tick whenever it is a year and not NaN. Every other
  year strictly between \<^verbatim>\<open>min_year\<close> and \<^verbatim>\<open>max_year\<close> is a tick if and only if it
  is a multiple of 5 and at least 3 years after the greatest tick before it. The labels are
  the ticks printed by \<^verbatim>\<open>str\<close>, in the same order; the ticks increase and lie between
  \<^verbatim>\<open>min_year\<close> and \<^verbatim>\<open>max_year\<close>.
\<close>

theorem tick_thinning:
  assumes "add_all (graph_post_init g0) args = Inr g"
    and "get_ticks g = Inr (tick_vals, tick_labels)"
    and "max_year g = Some (Val b)"
    and "- (2 ^ 63) \<le> b" and "b < 2 ^ 63 - 1"
  shows "\<exists>a. min_year g = Some (Val a) \<and> a \<le> b
     \<and> series_list g \<noteq> []
     \<and> tick_vals \<noteq> [] \<and> hd tick_vals = a \<and> b \<in> set tick_vals
     \<and> (\<forall>f. forecast_start_year g = Some (Val f) \<longrightarrow> f \<in> set tick_vals)
     \<and> (\<forall>y. a < y \<and> y < b \<and> year_differs y (forecast_start_year g) \<longrightarrow>
           (y \<in> set tick_vals \<longleftrightarrow>
              y mod 5 = 0 \<and> 3 \<le> y - Max {t \<in> set tick_vals. t < y}))
     \<and> tick_labels = map str_int tick_vals
     \<and> sorted_wrt (<) tick_vals \<and> set tick_vals \<subseteq> {a..b}"
proof -
  have fresh: "series_list (graph_post_init g0) = []" "min_year (graph_post_init g0) = None"
    "max_year (graph_post_init g0) = None" "forecast_start_year (graph_post_init g0) = None"
    by (simp_all add: graph_post_init_def)
  then have "years_inv (graph_post_init g0)" by (simp add: years_inv_def)
  from years_inv_add_all [OF this assms(1)] have inv: "years_inv g" .
  from get_ticks_Inr [OF assms(2)] assms(3) obtain a where
    mn: "min_year g = Some (Val a)"
    and run0: "tick_loop (forecast_start_year g) b (py_range a (wrap_int64 (b + 1))) ([], [])
               = (tick_vals, tick_labels)"
    by auto
  from assms(4,5) have "wrap_int64 (b + 1) = b + 1"
    by (intro wrap_int64_id) simp_all
  with run0 have run: "tick_loop (forecast_start_year g) b [a..b] ([], [])
      = (tick_vals, tick_labels)"
    by (simp add: py_range_def)
  from years_inv_ranges [OF inv mn assms(3)] have ab: "a \<le> b"
    and fr: "\<And>f. forecast_start_year g = Some (Val f) \<Longrightarrow> a \<le> f \<and> f \<le> b"
    by blast+
  from add_all_stats [OF assms(1) fresh] mn have ne: "series_list g \<noteq> []" by auto
  note T = ticks_of_range [OF run ab]
  from T fr have "\<forall>f. forecast_start_year g = Some (Val f) \<longrightarrow> f \<in> set tick_vals"
    by blast
  with T mn ab ne show ?thesis by blast
qed

theorem tick_thinning_witness:
  "add_all (graph_post_init example_graph)
       [(long_df, Some ''Emissions'', StrName ''Emissions'', None, None, None)]
     = Inr long_graph
   \<and> get_ticks long_graph = Inr (long_ticks, long_labels)
   \<and> long_labels = map str_int long_ticks
   \<and> max_year long_graph = Some (Val 2035)
   \<and> - (2 ^ 63) \<le> (2035 :: int) \<and> (2035 :: int) < 2 ^ 63 - 1
   \<and> 2035 \<in> set long_ticks
   \<and> forecast_start_year long_graph = Some (Val 2018) \<and> 2018 \<in> set long_ticks
   \<and> min_year long_graph = Some (Val 2000) \<and> hd long_ticks = 2000
   \<and> 2000 < (2020 :: int) \<and> (2020 :: int) < 2035
   \<and> year_differs 2020 (forecast_start_year long_graph)
   \<and> 2020 \<notin> set long_ticks \<and> Max {t \<in> set long_ticks. t < 2020} = 2018
   \<and> 2025 \<in> set long_ticks \<and> Max {t \<in> set long_ticks. t < 2025} = 2018"
proof -
  have v: "forecast_start_year long_graph = Some (Val 2018)"
    "min_year long_graph = Some (Val 2000)" "max_year long_graph = Some (Val 2035)"
    by (simp_all add: long_graph_def)
  have r: "- (2 ^ 63) \<le> (2035 :: int)" "(2035 :: int) < 2 ^ 63 - 1"
    by simp_all
  have m: "{t \<in> set long_ticks. t < 2020} = {2000, 2005, 2010, 2015, 2018}"
    "{t \<in> set long_ticks. t < 2025} = {2000, 2005, 2010, 2015, 2018}"
    by (auto simp: long_ticks_def)
  have mx: "Max {t \<in> set long_ticks. t < 2020} = 2018"
    "Max {t \<in> set long_ticks. t < 2025} = 2018"
    unfolding m by simp_all
  from tick_thinning [OF long_graph_run long_graph_ticks v(3) r] v
  have t: "hd long_ticks = 2000" "2035 \<in> set long_ticks" "2018 \<in> set long_ticks"
    "long_labels = map str_int long_ticks"
    and o: "\<And>y. 2000 < y \<and> y < 2035 \<and> year_differs y (Some (Val 2018)) \<Longrightarrow>
           (y \<in> set long_ticks \<longleftrightarrow>
              y mod 5 = 0 \<and> 3 \<le> y - Max {t \<in> set long_ticks. t < y})"
    by auto
  from o [of 2020] mx have n: "2020 \<notin> set long_ticks" by simp
  from o [of 2025] mx have p: "2025 \<in> set long_ticks" by simp
  from long_graph_run long_graph_ticks v r t n p mx show ?thesis by simp
qed

subsection \<open>The layout\<close>

lemma deepupdate_other:
  "k \<notin> fst ` set src \<Longrightarrow> map_of (deepupdate target src) k = map_of target k"
proof (induction src arbitrary: target)
  case Nil
  then show ?case by simp
next
  case (Cons p src)
  obtain k' v where p: "p = (k', v)" by (cases p)
  with Cons.prems have ne: "k' \<noteq> k" and rest: "k \<notin> fst ` set src" by auto
  show ?case
    unfolding p deepupdate.simps
    by (subst Cons.IH [OF rest])
       (use ne in \<open>auto simp: update_conv' split: pyval.splits option.splits\<close>)
qed

lemma deepupdate_given:
  assumes "distinct (map fst src)" "(k, v) \<in> set src"
  shows "map_of (deepupdate target src) k =
     Some (case v of
             PyDict s \<Rightarrow> (case map_of target k of
                            Some (PyDict t) \<Rightarrow> PyDict (deepupdate t s)
                          | _ \<Rightarrow> v)
           | _ \<Rightarrow> v)"
  using assms
proof (induction src arbitrary: target)
  case Nil
  then show ?case by simp
next
  case (Cons p src)
  obtain k' v' where p: "p = (k', v')" by (cases p)
  show ?case
  proof (cases "(k, v) = (k', v')")
    case True
    with Cons.prems p have "k \<notin> fst ` set src" by auto
    from deepupdate_other [OF this] True show ?thesis
      unfolding p deepupdate.simps
      by (auto simp: update_conv' split: pyval.splits option.splits)
  next
    case False
    with Cons.prems p have in_rest: "(k, v) \<in> set src" and d: "distinct (map fst src)"
      by auto
    with Cons.prems p have ne: "k' \<noteq> k" by force
    show ?thesis
      unfolding p deepupdate.simps
      by (subst Cons.IH [OF d in_rest])
         (use ne in \<open>auto simp: update_conv' split: pyval.splits option.splits\<close>)
  qed
qed


lemma default_keys:
  "map_of default_params ''legend'' = None"
  "map_of default_params ''showlegend'' = None"
  "map_of default_params ''title'' = None"
  by (simp_all add: default_params_def)

lemma initial_params_showlegend:
  "map_of (initial_params kwargs) ''showlegend'' =
     (if has_key kwargs ''legend'' then None else Some (PyBool False))"
  by (simp add: initial_params_def update_conv' default_keys)

lemma initial_params_title: "map_of (initial_params kwargs) ''title'' = None"
  by (simp add: initial_params_def update_conv' default_keys)

lemma wrap_title_other:
  "k \<noteq> ''title'' \<Longrightarrow> map_of (wrap_title repr params) k = map_of params k"
  by (simp add: wrap_title_def update_conv' split: option.splits)

lemma wrap_title_title:
  "map_of (wrap_title repr params) ''title'' =
     map_option (\<lambda>t. PyStr (''<b>'' @ format_s repr t @ ''</b>'')) (map_of params ''title'')"
  by (simp add: wrap_title_def update_conv' split: option.splits)

lemma has_key_iff: "has_key d k \<longleftrightarrow> k \<in> fst ` set d"
  by (simp add: has_key_def map_of_eq_None_iff)

text \<open>The figure carries the ticks of the tick loop on its x axis.\<close>

lemma get_figure_Inr:
  assumes "get_figure env repr g = Inr fig"
  shows "\<exists>tick_vals tick_labels.
           get_ticks g = Inr (tick_vals, tick_labels) \<and>
           fig_layout fig = layout_of repr g tick_vals tick_labels \<and>
           collect_traces env g (series_list g) 0 (1 < length (series_list g))
             = Inr (fig_data fig)"
  using assms
  by (auto simp: get_figure_def Let_def split: sum.splits prod.splits)

lemma layout_ticks:
  "\<exists>xaxis. map_of (layout_of repr g tick_vals tick_labels) ''xaxis'' = Some (PyDict xaxis)
     \<and> map_of xaxis ''tickvals'' = Some (PyList (map PyInt tick_vals))
     \<and> map_of xaxis ''ticklabels'' = Some (PyList (map PyStr tick_labels))"
proof -
  let ?given = "[(''fixedrange'', PyBool True),
            (''tickvals'', PyList (map PyInt tick_vals)),
            (''ticklabels'', PyList (map PyStr tick_labels))]"
  let ?kwargs = "[(''title'', opt_str (title g)),
        (''yaxis'', PyDict ((''title'', opt_str (unit_name g)) # yattrs_of g)),
        (''xaxis'', PyDict ?given),
        (''hovermode'', PyStr ''closest''),
        (''height'', PyInt 450)]"
  have d: "distinct (map fst ?kwargs)" by simp
  have m: "(''xaxis'', PyDict ?given) \<in> set ?kwargs" by simp
  obtain t where t: "map_of (initial_params ?kwargs) ''xaxis'' = Some (PyDict t)"
    and tv: "map_of t ''tickvals'' = None" and tl: "map_of t ''ticklabels'' = None"
    by (simp add: initial_params_def default_params_def has_key_def)
  from deepupdate_given [OF d m, of "initial_params ?kwargs"] t
  have "map_of (deepupdate (initial_params ?kwargs) ?kwargs) ''xaxis''
      = Some (PyDict (deepupdate t ?given))"
    by simp
  then have "map_of (layout_of repr g tick_vals tick_labels) ''xaxis''
      = Some (PyDict (deepupdate t ?given))"
    by (simp add: layout_of_def make_layout_def wrap_title_other)
  moreover have "map_of (deepupdate t ?given) ''tickvals'' = Some (PyList (map PyInt tick_vals))"
    by (subst deepupdate_given [of _ "''tickvals''" "PyList (map PyInt tick_vals)"]) simp_all
  moreover have "map_of (deepupdate t ?given) ''ticklabels''
      = Some (PyList (map PyStr tick_labels))"
    by (subst deepupdate_given [of _ "''ticklabels''" "PyList (map PyStr tick_labels)"]) simp_all
  ultimately show ?thesis by blast
qed

lemma deepupdate_distinct:
  "distinct (map fst target) \<Longrightarrow> distinct (map fst (deepupdate target src))"
proof (induction src arbitrary: target)
  case Nil
  then show ?case by simp
next
  case (Cons p src)
  obtain k v where p: "p = (k, v)" by (cases p)
  show ?case
    unfolding p deepupdate.simps
    by (rule Cons.IH) (auto simp: distinct_update Cons.prems split: pyval.splits option.splits)
qed

lemma make_layout_distinct: "distinct (map fst (make_layout repr kwargs))"
proof -
  have "distinct (map fst default_params)" by (simp add: default_params_def)
  then have "distinct (map fst (initial_params kwargs))"
    by (simp add: initial_params_def distinct_update)
  then have "distinct (map fst (deepupdate (initial_params kwargs) kwargs))"
    by (rule deepupdate_distinct)
  then show ?thesis
    by (simp add: make_layout_def wrap_title_def distinct_update split: option.splits)
qed

lemma example_initial_xaxis:
  "map_of (initial_params example_kwargs) ''xaxis'' =
     Some (PyDict
         [(''showgrid'', PyBool False),
          (''showline'', PyBool False),
          (''anchor'', PyStr ''free''),
          (''domain'', PyList [PyFloat 0.01, PyInt 1]),
          (''tickfont'', PyDict font_params),
          (''gridwidth'', PyInt 1),
          (''gridcolor'', PyStr ''#ccc''),
          (''fixedrange'', PyBool True)])"
  by (simp add: initial_params_def default_params_def has_key_def example_kwargs_def)

text \<open>
  C7, as the claim states it, fails in both directions: a given \<^verbatim>\<open>showlegend\<close> wins
  over the default. Without \<^verbatim>\<open>legend\<close> and with \<^verbatim>\<open>showlegend=True\<close> the result
  has \<^verbatim>\<open>showlegend\<close> true; with \<^verbatim>\<open>legend\<close> and \<^verbatim>\<open>showlegend=False\<close> it has
  \<^verbatim>\<open>showlegend\<close> false.
\<close>

theorem given_showlegend_wins:
  "\<not> has_key [(''showlegend'', PyBool True)] ''legend''
   \<and> map_of (make_layout example_repr [(''showlegend'', PyBool True)]) ''showlegend''
       = Some (PyBool True)
   \<and> has_key [(''legend'', PyDict []), (''showlegend'', PyBool False)] ''legend''
   \<and> map_of (make_layout example_repr [(''legend'', PyDict []), (''showlegend'', PyBool False)])
         ''showlegend''
       = Some (PyBool False)"
  by (simp add: has_key_def make_layout_def initial_params_def default_params_def
        wrap_title_def update_conv')

text \<open>
  C7, amended. For keyword arguments (their keys are distinct), the result of
  \<open>make_layout\<close> is a dictionary: the deep merge of the arguments into the defaults, to
  which \<^verbatim>\<open>showlegend = False\<close> is added exactly when \<^verbatim>\<open>legend\<close> is not given. A key
  that is not given keeps its default; a given value that is no dictionary replaces the
  default; a given dictionary is merged into the default when that is a dictionary, and
  is taken as it is when the key has no default or one that is no dictionary. So when
  \<^verbatim>\<open>showlegend\<close> is not given, the result has \<^verbatim>\<open>showlegend\<close> false if
  \<^verbatim>\<open>legend\<close> is not given and no \<^verbatim>\<open>showlegend\<close> if it is. A given title comes
  back wrapped in \<^verbatim>\<open><b>\<close> and \<^verbatim>\<open></b>\<close>, and without a given title the result has
  none.
\<close>

theorem make_layout_merge:
  assumes "distinct (map fst kwargs)"
  shows "(\<forall>k. k \<noteq> ''title'' \<and> \<not> has_key kwargs k \<longrightarrow>
            map_of (make_layout repr kwargs) k = map_of (initial_params kwargs) k)
     \<and> (\<forall>k v. k \<noteq> ''title'' \<and> (k, v) \<in> set kwargs \<and> (\<forall>s. v \<noteq> PyDict s) \<longrightarrow>
            map_of (make_layout repr kwargs) k = Some v)
     \<and> (\<forall>k s t. k \<noteq> ''title'' \<and> (k, PyDict s) \<in> set kwargs
              \<and> map_of (initial_params kwargs) k = Some (PyDict t) \<longrightarrow>
            map_of (make_layout repr kwargs) k = Some (PyDict (deepupdate t s)))
     \<and> (\<forall>k s. k \<noteq> ''title'' \<and> (k, PyDict s) \<in> set kwargs
              \<and> (\<forall>t. map_of (initial_params kwargs) k \<noteq> Some (PyDict t)) \<longrightarrow>
            map_of (make_layout repr kwargs) k = Some (PyDict s))
     \<and> (\<not> has_key kwargs ''showlegend'' \<longrightarrow>
            map_of (make_layout repr kwargs) ''showlegend'' =
              (if has_key kwargs ''legend'' then None else Some (PyBool False)))
     \<and> (\<forall>t. (''title'', t) \<in> set kwargs \<longrightarrow>
            map_of (make_layout repr kwargs) ''title'' =
              Some (PyStr (''<b>'' @ format_s repr t @ ''</b>'')))
     \<and> (\<not> has_key kwargs ''title'' \<longrightarrow> map_of (make_layout repr kwargs) ''title'' = None)
     \<and> distinct (map fst (make_layout repr kwargs))"
proof (intro conjI allI impI)
  fix k
  assume "k \<noteq> ''title'' \<and> \<not> has_key kwargs k"
  then show "map_of (make_layout repr kwargs) k = map_of (initial_params kwargs) k"
    by (simp add: make_layout_def wrap_title_other deepupdate_other has_key_iff)
next
  fix k v
  assume a: "k \<noteq> ''title'' \<and> (k, v) \<in> set kwargs \<and> (\<forall>s. v \<noteq> PyDict s)"
  with deepupdate_given [OF assms, of k v "initial_params kwargs"]
  show "map_of (make_layout repr kwargs) k = Some v"
    by (cases v) (simp_all add: make_layout_def wrap_title_other)
next
  fix k s t
  assume a: "k \<noteq> ''title'' \<and> (k, PyDict s) \<in> set kwargs
              \<and> map_of (initial_params kwargs) k = Some (PyDict t)"
  with deepupdate_given [OF assms, of k "PyDict s" "initial_params kwargs"]
  show "map_of (make_layout repr kwargs) k = Some (PyDict (deepupdate t s))"
    by (simp add: make_layout_def wrap_title_other)
next
  fix k s
  assume a: "k \<noteq> ''title'' \<and> (k, PyDict s) \<in> set kwargs
              \<and> (\<forall>t. map_of (initial_params kwargs) k \<noteq> Some (PyDict t))"
  with deepupdate_given [OF assms, of k "PyDict s" "initial_params kwargs"]
  have "map_of (deepupdate (initial_params kwargs) kwargs) k = Some (PyDict s)"
    by (auto split: option.splits pyval.splits)
  with a show "map_of (make_layout repr kwargs) k = Some (PyDict s)"
    by (simp add: make_layout_def wrap_title_other)
next
  assume "\<not> has_key kwargs ''showlegend''"
  then show "map_of (make_layout repr kwargs) ''showlegend'' =
              (if has_key kwargs ''legend'' then None else Some (PyBool False))"
    by (simp add: make_layout_def wrap_title_other deepupdate_other has_key_iff
          initial_params_showlegend)
next
  fix t
  assume a: "(''title'', t) \<in> set kwargs"
  from deepupdate_given [OF assms a, of "initial_params kwargs"]
  have "map_of (deepupdate (initial_params kwargs) kwargs) ''title'' = Some t"
    by (cases t) (simp_all add: initial_params_title)
  then show "map_of (make_layout repr kwargs) ''title'' =
              Some (PyStr (''<b>'' @ format_s repr t @ ''</b>''))"
    by (simp add: make_layout_def wrap_title_title)
next
  assume "\<not> has_key kwargs ''title''"
  then show "map_of (make_layout repr kwargs) ''title'' = None"
    by (simp add: make_layout_def wrap_title_title deepupdate_other has_key_iff
          initial_params_title)
next
  show "distinct (map fst (make_layout repr kwargs))"
    by (rule make_layout_distinct)
qed

theorem make_layout_merge_witness:
  "distinct (map fst example_kwargs)
   \<and> \<not> has_key example_kwargs ''showlegend'' \<and> \<not> has_key example_kwargs ''legend''
   \<and> map_of (make_layout example_repr example_kwargs) ''showlegend'' = Some (PyBool False)
   \<and> (''title'', PyStr ''Emissions'') \<in> set example_kwargs
   \<and> map_of (make_layout example_repr example_kwargs) ''title''
       = Some (PyStr ''<b>Emissions</b>'')
   \<and> (''height'', PyInt 450) \<in> set example_kwargs
   \<and> map_of (make_layout example_repr example_kwargs) ''height'' = Some (PyInt 450)
   \<and> \<not> has_key example_kwargs ''separators''
   \<and> map_of (make_layout example_repr example_kwargs) ''separators'' = Some (PyStr '', '')
   \<and> (''xaxis'', PyDict [(''fixedrange'', PyBool False), (''tickvals'', PyList [PyInt 2018])])
         \<in> set example_kwargs
   \<and> map_of (make_layout example_repr example_kwargs) ''xaxis'' = Some (PyDict example_xaxis)
   \<and> distinct (map fst legend_kwargs)
   \<and> (''legend'', PyDict [(''orientation'', PyStr ''h'')]) \<in> set legend_kwargs
   \<and> map_of (initial_params legend_kwargs) ''legend'' = None
   \<and> map_of (make_layout example_repr legend_kwargs) ''legend''
       = Some (PyDict [(''orientation'', PyStr ''h'')])
   \<and> \<not> has_key legend_kwargs ''showlegend'' \<and> has_key legend_kwargs ''legend''
   \<and> map_of (make_layout example_repr legend_kwargs) ''showlegend'' = None
   \<and> \<not> has_key legend_kwargs ''title''
   \<and> map_of (make_layout example_repr legend_kwargs) ''title'' = None"
proof -
  have d: "distinct (map fst example_kwargs)"
    by (simp add: example_kwargs_def)
  have k: "\<not> has_key example_kwargs ''showlegend''" "\<not> has_key example_kwargs ''legend''"
    "\<not> has_key example_kwargs ''separators''"
    "(''title'', PyStr ''Emissions'') \<in> set example_kwargs"
    "(''height'', PyInt 450) \<in> set example_kwargs"
    "(''xaxis'', PyDict [(''fixedrange'', PyBool False), (''tickvals'', PyList [PyInt 2018])])
         \<in> set example_kwargs"
    by (simp_all add: example_kwargs_def has_key_def)
  note t = make_layout_merge [OF d, of example_repr]
  from t k have 1: "map_of (make_layout example_repr example_kwargs) ''showlegend''
      = Some (PyBool False)"
    by simp
  from t k(4) have 2: "map_of (make_layout example_repr example_kwargs) ''title''
      = Some (PyStr ''<b>Emissions</b>'')"
    by (auto simp: format_s_def)
  from t k(5) have 3: "map_of (make_layout example_repr example_kwargs) ''height''
      = Some (PyInt 450)"
    by auto
  from t k(3) have "map_of (make_layout example_repr example_kwargs) ''separators''
      = map_of (initial_params example_kwargs) ''separators''"
    by auto
  then have 4: "map_of (make_layout example_repr example_kwargs) ''separators''
      = Some (PyStr '', '')"
    by (simp add: initial_params_def default_params_def update_conv')
  from t k(6) example_initial_xaxis
  have "map_of (make_layout example_repr example_kwargs) ''xaxis'' =
     Some (PyDict (deepupdate
         [(''showgrid'', PyBool False),
          (''showline'', PyBool False),
          (''anchor'', PyStr ''free''),
          (''domain'', PyList [PyFloat 0.01, PyInt 1]),
          (''tickfont'', PyDict font_params),
          (''gridwidth'', PyInt 1),
          (''gridcolor'', PyStr ''#ccc''),
          (''fixedrange'', PyBool True)]
         [(''fixedrange'', PyBool False), (''tickvals'', PyList [PyInt 2018])]))"
    by auto
  then have 5: "map_of (make_layout example_repr example_kwargs) ''xaxis''
      = Some (PyDict example_xaxis)"
    by (simp add: example_xaxis_def)
  have d': "distinct (map fst legend_kwargs)"
    by (simp add: legend_kwargs_def)
  have l: "(''legend'', PyDict [(''orientation'', PyStr ''h'')]) \<in> set legend_kwargs"
    "map_of (initial_params legend_kwargs) ''legend'' = None"
    "\<not> has_key legend_kwargs ''showlegend''" "has_key legend_kwargs ''legend''"
    "\<not> has_key legend_kwargs ''title''"
    by (simp_all add: legend_kwargs_def has_key_def initial_params_def default_params_def)
  note u = make_layout_merge [OF d', of example_repr]
  from u l(1,2) have 6: "map_of (make_layout example_repr legend_kwargs) ''legend''
       = Some (PyDict [(''orientation'', PyStr ''h'')])"
    by auto
  from u l(3,4) have 7: "map_of (make_layout example_repr legend_kwargs) ''showlegend'' = None"
    by simp
  from u l(5) have 8: "map_of (make_layout example_repr legend_kwargs) ''title'' = None"
    by simp
  from d k 1 2 3 4 5 d' l 6 7 8 show ?thesis by blast
qed

end
